theory Spec2Isabelle
  imports Complex_Main "HOL-Library.Sublist" "HOL-Library.Multiset"
    "HOL-Library.Char_ord" "HOL-Library.List_Lexorder"
begin

section \<open>Text\<close>

text \<open>
  Python text is modelled as \<^typ>\<open>string\<close>; a \<^typ>\<open>char\<close> stands for one code point
  of the range U+0000 to U+00FF, and \<open>code_point\<close> reads its number. On this range
  \<^verbatim>\<open>str.lower\<close> maps a code point to one code point: the letters A to Z and the
  accented capitals U+00C0 to U+00DE (the multiplication sign U+00D7 apart) move up by 32,
  everything else stays.
\<close>

definition code_point :: "char \<Rightarrow> nat" where
  "code_point c = of_char c"

definition lower_char :: "char \<Rightarrow> char" where
  "lower_char c =
     (let n = code_point c in
      if (65 \<le> n \<and> n \<le> 90) \<or> (192 \<le> n \<and> n \<le> 222 \<and> n \<noteq> 215)
      then char_of (n + 32) else c)"

definition lower :: "string \<Rightarrow> string" where
  "lower txt = map lower_char txt"

text \<open>The character class \<^verbatim>\<open>[a-z0-9]\<close> of the fallback \<^verbatim>\<open>slugify\<close>.\<close>

definition is_slug_char :: "char \<Rightarrow> bool" where
  "is_slug_char c =
     (let n = code_point c in (97 \<le> n \<and> n \<le> 122) \<or> (48 \<le> n \<and> n \<le> 57))"

text \<open>
  \<^verbatim>\<open>re.sub(r"[^a-z0-9]+", "-", s)\<close>: scanning from the left, every maximal run of
  characters outside the class is replaced by one dash.
\<close>

function re_sub_dash :: "string \<Rightarrow> string" where
  "re_sub_dash [] = []"
| "re_sub_dash (c # cs) =
     (if is_slug_char c then c # re_sub_dash cs
      else CHR ''-'' # re_sub_dash (dropWhile (\<lambda>d. \<not> is_slug_char d) cs))"
  by pat_completeness auto
termination
  by (relation "measure length") (auto simp: length_dropWhile_le less_Suc_eq_le)

text \<open>\<^verbatim>\<open>s.strip(chars)\<close>: the characters of \<open>chars\<close> are removed from both ends.\<close>

definition strip_chars :: "string \<Rightarrow> string \<Rightarrow> string" where
  "strip_chars chars s =
     rev (dropWhile (\<lambda>d. d \<in> set chars) (rev (dropWhile (\<lambda>d. d \<in> set chars) s)))"

text \<open>
  The fallback defined when the \<^verbatim>\<open>slugify\<close> package is not installed:
  \<^verbatim>\<open>re.sub(r"[^a-z0-9]+", "-", txt.lower()).strip("-")\<close>.
\<close>

definition slugify :: "string \<Rightarrow> string" where
  "slugify txt = strip_chars ''-'' (re_sub_dash (lower txt))"

text \<open>
  \<^verbatim>\<open>str.strip()\<close> without argument removes white space; below U+0100 these are
  U+0009 to U+000D, U+001C to U+0020, U+0085 and U+00A0.
\<close>

definition is_space :: "char \<Rightarrow> bool" where
  "is_space c =
     (let n = code_point c in (9 \<le> n \<and> n \<le> 13) \<or> (28 \<le> n \<and> n \<le> 32) \<or> n = 133 \<or> n = 160)"

definition strip :: "string \<Rightarrow> string" where
  "strip s = rev (dropWhile is_space (rev (dropWhile is_space s)))"

text \<open>\<^verbatim>\<open>x.strip() or None\<close>, and the truth value of the result in \<^verbatim>\<open>if start:\<close>.\<close>

definition strip_or_None :: "string \<Rightarrow> string option" where
  "strip_or_None s = (if strip s = [] then None else Some (strip s))"

fun truthy :: "string option \<Rightarrow> bool" where
  "truthy None = False"
| "truthy (Some s) = (s \<noteq> [])"

text \<open>\<^verbatim>\<open>sep.join(parts)\<close>.\<close>

fun join :: "string \<Rightarrow> string list \<Rightarrow> string" where
  "join sep [] = []"
| "join sep [w] = w"
| "join sep (w # v # ws) = w @ sep @ join sep (v # ws)"

section \<open>Request URLs\<close>

definition API_BASE :: string where
  "API_BASE = ''https://apis.datos.gob.ar/series/api/series?format=csv&''"

text \<open>
  \<^verbatim>\<open>urllib.parse.urlencode\<close> of a dictionary of strings: key and value go through
  \<^verbatim>\<open>quote_plus\<close>, which writes a space as \<open>+\<close>, keeps the bytes of letters, digits
  and \<open>_.-~\<close>, and writes every other byte of the UTF-8 encoding as \<open>%XX\<close> in upper-case
  hexadecimal. The dictionary is the list of its items in insertion order.
\<close>

definition utf8_encode :: "char \<Rightarrow> nat list" where
  "utf8_encode c =
     (let n = code_point c in if n < 128 then [n] else [192 + n div 64, 128 + n mod 64])"

definition always_safe :: "nat \<Rightarrow> bool" where
  "always_safe b =
     ((65 \<le> b \<and> b \<le> 90) \<or> (97 \<le> b \<and> b \<le> 122) \<or> (48 \<le> b \<and> b \<le> 57)
      \<or> b = 95 \<or> b = 46 \<or> b = 45 \<or> b = 126)"

definition hex_digit :: "nat \<Rightarrow> char" where
  "hex_digit d = ''0123456789ABCDEF'' ! (d mod 16)"

definition quote_byte :: "nat \<Rightarrow> string" where
  "quote_byte b =
     (if always_safe b then [char_of b] else [CHR ''%'', hex_digit (b div 16), hex_digit b])"

definition quote_plus :: "string \<Rightarrow> string" where
  "quote_plus s =
     concat (map (\<lambda>c. if c = CHR '' '' then ''+'' else concat (map quote_byte (utf8_encode c))) s)"

definition urlencode :: "(string \<times> string) list \<Rightarrow> string" where
  "urlencode q = join ''&'' (map (\<lambda>(k, v). quote_plus k @ ''='' @ quote_plus v) q)"

definition build_api_url :: "string \<Rightarrow> string option \<Rightarrow> string option \<Rightarrow> string" where
  "build_api_url serie_id start end =
     (let q = [(''ids'', serie_id)];
          q = (case start of Some s \<Rightarrow> if truthy start then q @ [(''start_date'', s)] else q
                           | None \<Rightarrow> q);
          q = (case end of Some e \<Rightarrow> if truthy end then q @ [(''end_date'', e)] else q
                         | None \<Rightarrow> q)
      in API_BASE @ urlencode q)"

text \<open>
  Reading a URL back: the text after the first \<open>?\<close> is cut at every \<open>&\<close>, and each
  piece at its first \<open>=\<close> into a key and a value. \<open>split_on\<close> is \<^verbatim>\<open>str.split(sep)\<close>
  for a separator of one character.
\<close>

fun split_on :: "char \<Rightarrow> string \<Rightarrow> string list" where
  "split_on sep [] = [[]]"
| "split_on sep (c # cs) =
     (if c = sep then [] # split_on sep cs
      else (case split_on sep cs of [] \<Rightarrow> [[c]] | w # ws \<Rightarrow> (c # w) # ws))"

definition query_items :: "string \<Rightarrow> (string \<times> string) list" where
  "query_items url =
     map (\<lambda>p. (takeWhile (\<lambda>c. c \<noteq> CHR ''='') p, drop 1 (dropWhile (\<lambda>c. c \<noteq> CHR ''='') p)))
       (split_on (CHR ''&'') (drop 1 (dropWhile (\<lambda>c. c \<noteq> CHR ''?'') url)))"



section \<open>File names of a download\<close>

text \<open>
  The names derived from the selected row and the two date fields:
  \<open>fname\<close> is the name of the saved file, \<open>script_name\<close> that of the companion script.
\<close>

definition fname :: "string \<Rightarrow> string \<Rightarrow> string \<Rightarrow> string" where
  "fname serie_titulo start_date end_date =
     (let start = strip_or_None start_date;
          end = strip_or_None end_date;
          base_slug = slugify serie_titulo
      in if truthy start \<or> truthy end then
           (let parts = [];
                parts = (case start of Some s \<Rightarrow> if truthy start then parts @ [s] else parts
                                     | None \<Rightarrow> parts);
                parts = (case end of Some e \<Rightarrow> if truthy end then parts @ [e] else parts
                                   | None \<Rightarrow> parts);
                suffix = join ''_'' parts
            in base_slug @ ''_'' @ suffix @ ''.csv'')
         else base_slug @ ''.csv'')"

definition script_name :: "string \<Rightarrow> string" where
  "script_name serie_titulo = slugify serie_titulo @ ''.py''"

section \<open>Tables\<close>

text \<open>
  A pandas table: the column labels in order, and the rows, each with its index label and
  its values in column order. A value is a number, a text or the missing value. A table
  that \<^verbatim>\<open>read_csv\<close> returns is rectangular: the labels are distinct and every row has
  one value for each column.
\<close>

datatype cell = Num real | Str string | NaN

record dataframe =
  columns :: "string list"
  rows :: "(nat \<times> cell list) list"

definition rectangular :: "dataframe \<Rightarrow> bool" where
  "rectangular df =
     (distinct (columns df) \<and> list_all (\<lambda>r. length (snd r) = length (columns df)) (rows df))"

text \<open>The value of a row under a label (the missing value if the row has none there).\<close>

definition cell_of :: "string list \<Rightarrow> cell list \<Rightarrow> string \<Rightarrow> cell" where
  "cell_of cols vals c = (case map_of (zip cols vals) c of Some v \<Rightarrow> v | None \<Rightarrow> NaN)"

text \<open>\<^verbatim>\<open>df[c] = v\<close> for a label that is not yet a column: the column is appended.\<close>

definition add_column :: "string \<Rightarrow> cell \<Rightarrow> dataframe \<Rightarrow> dataframe" where
  "add_column c v df =
     \<lparr>columns = columns df @ [c], rows = map (\<lambda>(i, vals). (i, vals @ [v])) (rows df)\<rparr>"

text \<open>\<^verbatim>\<open>df[c] = f(df[c])\<close> for a function that works value by value.\<close>

definition map_column :: "string \<Rightarrow> (cell \<Rightarrow> cell) \<Rightarrow> dataframe \<Rightarrow> dataframe" where
  "map_column c f df =
     df\<lparr>rows := map (\<lambda>(i, vals). (i, map (\<lambda>(k, v). if k = c then f v else v) (zip (columns df) vals)))
                  (rows df)\<rparr>"

text \<open>
  \<^verbatim>\<open>pd.to_numeric(..., errors="coerce")\<close> on one value: a number stays, a text is read as
  a number by the library's reader \<open>parse_number\<close> and becomes the missing value when that
  fails. \<^verbatim>\<open>fillna(d)\<close> replaces the missing value.
\<close>

definition to_numeric :: "(string \<Rightarrow> real option) \<Rightarrow> cell \<Rightarrow> cell" where
  "to_numeric parse_number v =
     (case v of
        Num x \<Rightarrow> Num x
      | Str s \<Rightarrow> (case parse_number s of Some x \<Rightarrow> Num x | None \<Rightarrow> NaN)
      | NaN \<Rightarrow> NaN)"

definition fillna :: "real \<Rightarrow> cell \<Rightarrow> cell" where
  "fillna d v = (case v of NaN \<Rightarrow> Num d | Num x \<Rightarrow> Num x | Str s \<Rightarrow> Str s)"

section \<open>Errors, the HTTP client and messages\<close>

datatype error =
    KeyError string
  | RuntimeError string
  | RequestException string
  | HTTPError nat
  | ParserError string
  | OSError string
  | TypeError string
  | AttributeError string

text \<open>
  The module \<^verbatim>\<open>requests\<close> is \<open>None\<close> when its import failed. Otherwise a GET with a
  time limit either fails in transport or returns a status and a body;
  \<^verbatim>\<open>raise_for_status\<close> raises for the statuses 400 to 599.
\<close>

datatype http_reply = Failure string | Response nat string

type_synonym requests_module = "(string \<Rightarrow> nat \<Rightarrow> http_reply) option"

definition requests_get :: "(string \<Rightarrow> nat \<Rightarrow> http_reply) \<Rightarrow> string \<Rightarrow> nat \<Rightarrow> error + string" where
  "requests_get get url timeout =
     (case get url timeout of
        Failure m \<Rightarrow> Inl (RequestException m)
      | Response status content \<Rightarrow>
          if 400 \<le> status \<and> status < 600 then Inl (HTTPError status) else Inr content)"

text \<open>
  The messages the page shows, one constructor for each call in the source:
  the two warnings of \<open>load_catalog\<close>, and in the download block the success notes for the
  saved file, the created script and the script run, the error note with the standard error
  of a failed run, and the error note of the exception handler.
\<close>

datatype notice =
    CatalogWithoutRequests
  | CatalogFallback error
  | SavedOnServer string
  | ScriptCreated string
  | ScriptRan
  | ScriptFailed string
  | SaveFailed error

section \<open>Loading the catalogue\<close>

definition CATALOG_URL :: string where
  "CATALOG_URL = ''https://apis.datos.gob.ar/series/api/dump/series-tiempo-metadatos.csv''"

definition EMBEDDED_CSV :: string where
  "EMBEDDED_CSV =
     ''serie_id,serie_titulo,dataset_tema,dataset_descripcion,serie_descripcion,consultas_90_dias''
       @ [CHR 0x0A]
       @ ''TEST123,Serie de ejemplo,Actividad,Dataset de prueba,Desc corta,999'' @ [CHR 0x0A]"

text \<open>
  \<open>load_catalog\<close> takes the module \<^verbatim>\<open>requests\<close>, the CSV reader of pandas and its
  number reader, and returns the table, or the error the reader raised, with the warnings
  shown. The reader is a parameter: what it makes of a text is the library's affair.
\<close>

definition load_catalog ::
  "requests_module \<Rightarrow> (string \<Rightarrow> error + dataframe) \<Rightarrow> (string \<Rightarrow> real option)
     \<Rightarrow> (error + dataframe) \<times> notice list" where
  "load_catalog requests read_csv parse_number =
     (let (csv_bytes, notices) =
            (case requests of
               None \<Rightarrow> (EMBEDDED_CSV, [CatalogWithoutRequests])
             | Some get \<Rightarrow>
                 (case requests_get get CATALOG_URL 60 of
                    Inr content \<Rightarrow> (content, [])
                  | Inl e \<Rightarrow> (EMBEDDED_CSV, [CatalogFallback e])))
      in case read_csv csv_bytes of
           Inl e \<Rightarrow> (Inl e, notices)
         | Inr df \<Rightarrow>
             (let df = (if ''consultas_90_dias'' \<notin> set (columns df)
                        then add_column ''consultas_90_dias'' (Num 0) df else df);
                  df = map_column ''consultas_90_dias'' (fillna 0 \<circ> to_numeric parse_number) df
              in (Inr df, notices)))"

text \<open>
  The table that \<^verbatim>\<open>read_csv\<close> makes of the embedded text: one row, the count read as a
  number.
\<close>

definition embedded_table :: dataframe where
  "embedded_table =
     \<lparr>columns = [''serie_id'', ''serie_titulo'', ''dataset_tema'', ''dataset_descripcion'',
                 ''serie_descripcion'', ''consultas_90_dias''],
      rows = [(0, [Str ''TEST123'', Str ''Serie de ejemplo'', Str ''Actividad'',
                   Str ''Dataset de prueba'', Str ''Desc corta'', Num 999])]\<rparr>"

text \<open>
  What the specification says of one value of the count column: a number stays, a text
  that reads as a number becomes that number, everything else becomes 0.
\<close>

definition coerced :: "(string \<Rightarrow> real option) \<Rightarrow> cell \<Rightarrow> cell" where
  "coerced parse_number v =
     (case v of
        Num x \<Rightarrow> Num x
      | Str s \<Rightarrow> (case parse_number s of Some x \<Rightarrow> Num x | None \<Rightarrow> Num 0)
      | NaN \<Rightarrow> Num 0)"

text \<open>
  The invariant as the specification states it: under the count column every row holds a
  number that is not negative.
\<close>

definition counts_non_negative :: "dataframe \<Rightarrow> bool" where
  "counts_non_negative df =
     list_all (\<lambda>r. case cell_of (columns df) (snd r) ''consultas_90_dias'' of
                      Num x \<Rightarrow> 0 \<le> x | Str s \<Rightarrow> False | NaN \<Rightarrow> False) (rows df)"

text \<open>
  A reply of the catalogue address with a negative count, and what \<^verbatim>\<open>read_csv\<close> makes
  of it.
\<close>

definition negative_csv :: string where
  "negative_csv = ''serie_id,consultas_90_dias'' @ [CHR 0x0A] @ ''X1,-5'' @ [CHR 0x0A]"

definition negative_table :: dataframe where
  "negative_table =
     \<lparr>columns = [''serie_id'', ''consultas_90_dias''], rows = [(0, [Str ''X1'', Num (- 5)])]\<rparr>"

text \<open>
  A reader that knows the given texts and their tables and refuses every other text, and a
  reply whose counts are a number written as text, a word and an empty field.
\<close>

definition table_reader :: "(string \<times> dataframe) list \<Rightarrow> string \<Rightarrow> error + dataframe" where
  "table_reader known b = (case map_of known b of Some d \<Rightarrow> Inr d | None \<Rightarrow> Inl (ParserError b))"

definition mixed_csv :: string where
  "mixed_csv = ''serie_id,consultas_90_dias'' @ [CHR 0x0A] @ ''A,12'' @ [CHR 0x0A]
                 @ ''B,muchas'' @ [CHR 0x0A] @ ''C,'' @ [CHR 0x0A]"

definition mixed_table :: dataframe where
  "mixed_table =
     \<lparr>columns = [''serie_id'', ''consultas_90_dias''],
      rows = [(0, [Str ''A'', Str ''12'']), (1, [Str ''B'', Str ''muchas'']), (2, [Str ''C'', NaN])]\<rparr>"

section \<open>Downloading a series\<close>

definition MISSING_REQUESTS :: string where
  "MISSING_REQUESTS =
     ''Necesitas la librer'' @ [CHR 0xED] @ ''a *requests* para descargar las series.''"

text \<open>The result, and the addresses of the GET requests that were made.\<close>

definition download_series :: "requests_module \<Rightarrow> string \<Rightarrow> (error + string) \<times> string list" where
  "download_series requests url =
     (case requests of
        None \<Rightarrow> (Inl (RuntimeError MISSING_REQUESTS), [])
      | Some get \<Rightarrow> (requests_get get url 60, [url]))"

section \<open>Filtering by title\<close>

text \<open>
  \<^verbatim>\<open>Series.str.contains(query, case=False, na=False)\<close> reads the query as a regular
  expression (the default \<^verbatim>\<open>regex=True\<close>) and searches it in every title, ignoring
  case. The model covers the patterns made of ordinary characters and the wildcard \<open>.\<close>,
  which matches any character but the line feed; for a pattern with another special
  character \<open>re_compile\<close> returns \<open>None\<close>, and nothing is said about it.
\<close>

datatype re_atom = Lit char | AnyChar

definition re_special :: "char \<Rightarrow> bool" where
  "re_special c = (c \<in> set (''.^$*+?{}[]|()'' @ [CHR 0x5C]))"

fun re_compile :: "string \<Rightarrow> re_atom list option" where
  "re_compile [] = Some []"
| "re_compile (c # cs) =
     (if c = CHR ''.'' then map_option (Cons AnyChar) (re_compile cs)
      else if re_special c then None
      else map_option (Cons (Lit c)) (re_compile cs))"

fun atom_matches :: "re_atom \<Rightarrow> char \<Rightarrow> bool" where
  "atom_matches (Lit p) c = (lower_char p = lower_char c)"
| "atom_matches AnyChar c = (c \<noteq> CHR 0x0A)"

fun match_here :: "re_atom list \<Rightarrow> string \<Rightarrow> bool" where
  "match_here [] s = True"
| "match_here (a # as) [] = False"
| "match_here (a # as) (c # cs) = (atom_matches a c \<and> match_here as cs)"

fun re_search :: "re_atom list \<Rightarrow> string \<Rightarrow> bool" where
  "re_search pat [] = match_here pat []"
| "re_search pat (c # cs) = (match_here pat (c # cs) \<or> re_search pat cs)"

text \<open>
  The accessor \<^verbatim>\<open>.str\<close> exists only on a column of texts, and raises on a column of
  numbers. Which of the two the title column is was settled when \<^verbatim>\<open>read_csv\<close> made the
  catalogue: a column of numbers if the catalogue has rows and none of its titles is a
  text, a column of texts otherwise. Selecting rows does not change it.
\<close>

definition text_dtype :: "string \<Rightarrow> dataframe \<Rightarrow> bool" where
  "text_dtype c meta =
     (rows meta = []
      \<or> list_ex (\<lambda>r. case cell_of (columns meta) (snd r) c of
                        Str t \<Rightarrow> True | Num x \<Rightarrow> False | NaN \<Rightarrow> False) (rows meta))"

text \<open>
  On one value of a column of texts: a text is searched; the missing value gives the value
  of \<^verbatim>\<open>na\<close>, which is \<open>False\<close>, and so does any other value that is not a text.
\<close>

definition str_contains :: "re_atom list \<Rightarrow> cell \<Rightarrow> bool" where
  "str_contains pat v = (case v of Str t \<Rightarrow> re_search pat t | Num x \<Rightarrow> False | NaN \<Rightarrow> False)"

text \<open>
  The step \<^verbatim>\<open>if query: filtered = filtered[...]\<close>, for the catalogue \<open>meta\<close> as it was
  loaded and the table \<open>filtered\<close> that the topic step selected from it. In the order of
  the source: the column is looked up, the accessor is taken, the pattern is compiled and
  searched.
\<close>

definition text_filter :: "string \<Rightarrow> dataframe \<Rightarrow> dataframe \<Rightarrow> (error + dataframe) option" where
  "text_filter query meta filtered =
     (if query = [] then Some (Inr filtered)
      else if ''serie_titulo'' \<notin> set (columns filtered) then Some (Inl (KeyError ''serie_titulo''))
      else if \<not> text_dtype ''serie_titulo'' meta
        then Some (Inl (AttributeError ''Can only use .str accessor with string values!''))
      else (case re_compile query of
              None \<Rightarrow> None
            | Some pat \<Rightarrow>
                Some (Inr (filtered\<lparr>rows :=
                  filter (\<lambda>(i, vals). str_contains pat (cell_of (columns filtered) vals ''serie_titulo''))
                    (rows filtered)\<rparr>))))"

text \<open>
  The filter as the specification states it: the rows whose title is a text that contains
  the query, both in lower case.
\<close>

definition title_contains :: "string \<Rightarrow> string list \<Rightarrow> nat \<times> cell list \<Rightarrow> bool" where
  "title_contains query cols r =
     (case cell_of cols (snd r) ''serie_titulo'' of
        Str t \<Rightarrow> sublist (lower query) (lower t) | Num x \<Rightarrow> False | NaN \<Rightarrow> False)"

text \<open>
  Three small catalogues: one title; four rows of which one has no title; and two rows
  without any title.
\<close>

definition one_title :: dataframe where
  "one_title =
     \<lparr>columns = [''serie_id'', ''serie_titulo'', ''dataset_tema'', ''consultas_90_dias''],
      rows = [(0, [Str ''S1'', Str ''abc'', Str ''Precios'', Num 3])]\<rparr>"

definition three_titles :: dataframe where
  "three_titles =
     \<lparr>columns = [''serie_id'', ''serie_titulo'', ''dataset_tema'', ''consultas_90_dias''],
      rows = [(0, [Str ''S1'', Str ''IPC Nivel General'', Str ''Precios'', Num 40]),
              (1, [Str ''S2'', NaN, Str ''Precios'', Num 7]),
              (2, [Str ''S3'', Str ''Tipo de cambio'', Str ''Finanzas'', Num 12]),
              (3, [Str ''S4'', Str ''EMAE general'', Str ''Actividad'', Num 0])]\<rparr>"

definition no_titles :: dataframe where
  "no_titles =
     \<lparr>columns = [''serie_id'', ''serie_titulo'', ''dataset_tema'', ''consultas_90_dias''],
      rows = [(0, [Str ''S1'', NaN, Str ''Precios'', Num 40]),
              (1, [Str ''S2'', NaN, Str ''Precios'', Num 7])]\<rparr>"

section \<open>Ordering the columns for the view\<close>

definition preferred_order :: "string list" where
  "preferred_order =
     [''consultas_90_dias'', ''dataset_descripcion'', ''dataset_fuente'', ''dataset_tema'',
      ''serie_indice_final'', ''serie_indice_inicio'', ''serie_unidades'', ''serie_valor_ultimo'']"

text \<open>\<^verbatim>\<open>df[cs]\<close>: the columns \<open>cs\<close> in that order; a label that is no column raises.\<close>

definition select_columns :: "string list \<Rightarrow> dataframe \<Rightarrow> error + dataframe" where
  "select_columns cs df =
     (case filter (\<lambda>c. c \<notin> set (columns df)) cs of
        [] \<Rightarrow> Inr \<lparr>columns = cs,
                   rows = map (\<lambda>(i, vals). (i, map (cell_of (columns df) vals) cs)) (rows df)\<rparr>
      | m # ms \<Rightarrow> Inl (KeyError m))"

definition reorder_columns :: "string list \<Rightarrow> dataframe \<Rightarrow> error + dataframe" where
  "reorder_columns preferred df =
     (let existing_preferred = filter (\<lambda>c. c \<in> set (columns df)) preferred;
          remaining_cols = filter (\<lambda>c. c \<notin> set existing_preferred) (columns df)
      in select_columns (existing_preferred @ remaining_cols) df)"

section \<open>Sorting the rows\<close>

text \<open>
  \<^verbatim>\<open>filtered.sort_values(order_col, ascending=asc, na_position="last")\<close>. The keys are the
  values of the column. Python orders numbers by value and texts by code points, and
  refuses to compare a number with a text.
\<close>

definition sort_keys :: "string \<Rightarrow> dataframe \<Rightarrow> cell list" where
  "sort_keys order_col df = map (\<lambda>r. cell_of (columns df) (snd r) order_col) (rows df)"

fun cell_le :: "cell \<Rightarrow> cell \<Rightarrow> bool" where
  "cell_le (Num a) (Num b) = (a \<le> b)"
| "cell_le (Str s) (Str t) = (s \<le> t)"
| "cell_le u v = False"

definition comparable :: "cell list \<Rightarrow> bool" where
  "comparable items =
     (list_all (\<lambda>v. case v of Str s \<Rightarrow> False | Num x \<Rightarrow> True | NaN \<Rightarrow> True) items
      \<or> list_all (\<lambda>v. case v of Num x \<Rightarrow> False | Str s \<Rightarrow> True | NaN \<Rightarrow> True) items)"

text \<open>
  pandas sorts through \<^verbatim>\<open>nargsort\<close>: the positions of the missing keys are set aside, the
  other keys are handed to \<^verbatim>\<open>argsort\<close> of numpy (for a descending sort in reverse, and
  the answer is reversed again), and the positions set aside are put at the end. The source
  does not choose the sort kind, and the default kind is not one of the stable kinds of the
  library. So \<^verbatim>\<open>argsort\<close> is known by its contract only: its answer \<open>p\<close> is an
  arrangement of the positions under which the keys ascend.
\<close>

definition is_argsort :: "cell list \<Rightarrow> nat list \<Rightarrow> bool" where
  "is_argsort keys p =
     (sort p = [0..<length keys] \<and> sorted_wrt (\<lambda>i j. cell_le (keys ! i) (keys ! j)) p)"

definition non_nan_idx :: "cell list \<Rightarrow> bool \<Rightarrow> nat list" where
  "non_nan_idx items ascending =
     (let idx = filter (\<lambda>i. items ! i \<noteq> NaN) [0..<length items]
      in if ascending then idx else rev idx)"

definition nan_idx :: "cell list \<Rightarrow> nat list" where
  "nan_idx items = filter (\<lambda>i. items ! i = NaN) [0..<length items]"

definition non_nans :: "cell list \<Rightarrow> bool \<Rightarrow> cell list" where
  "non_nans items ascending = map (\<lambda>i. items ! i) (non_nan_idx items ascending)"

definition nargsort :: "nat list \<Rightarrow> cell list \<Rightarrow> bool \<Rightarrow> nat list" where
  "nargsort p items ascending =
     (let indexer = map (\<lambda>j. non_nan_idx items ascending ! j) p;
          indexer = (if ascending then indexer else rev indexer)
      in indexer @ nan_idx items)"

text \<open>
  The sort step relates a table to each of its possible results: an error for a label that
  is no column or for keys that cannot be compared, and otherwise the rows taken in the
  order \<open>nargsort\<close> gives for an answer of \<^verbatim>\<open>argsort\<close>.
\<close>

inductive sort_values :: "string \<Rightarrow> bool \<Rightarrow> dataframe \<Rightarrow> error + dataframe \<Rightarrow> bool" where
  sort_KeyError:
    "order_col \<notin> set (columns df) \<Longrightarrow> sort_values order_col ascending df (Inl (KeyError order_col))"
| sort_TypeError:
    "order_col \<in> set (columns df) \<Longrightarrow> \<not> comparable (sort_keys order_col df) \<Longrightarrow>
     sort_values order_col ascending df (Inl (TypeError ''<''))"
| sort_rows:
    "order_col \<in> set (columns df) \<Longrightarrow>
     is_argsort (non_nans (sort_keys order_col df) ascending) p \<Longrightarrow>
     sort_values order_col ascending df
       (Inr (df\<lparr>rows := map (\<lambda>i. rows df ! i) (nargsort p (sort_keys order_col df) ascending)\<rparr>))"



section \<open>Saving a series on the server\<close>

text \<open>
  Paths are texts. \<open>path_join\<close> is \<^verbatim>\<open>os.path.join\<close> of two parts on a POSIX system:
  an absolute second part replaces the first, otherwise the parts are joined with one
  slash. The two directories lie beside the program, in \<open>app_dir\<close>.
\<close>

definition path_join :: "string \<Rightarrow> string \<Rightarrow> string" where
  "path_join a b =
     (if take 1 b = ''/'' then b
      else if a = [] \<or> take 1 (rev a) = ''/'' then a @ b
      else a @ ''/'' @ b)"

definition DL_DIR :: "string \<Rightarrow> string" where
  "DL_DIR app_dir = path_join app_dir ''descargas''"

definition SCRIPTS_DIR :: "string \<Rightarrow> string" where
  "SCRIPTS_DIR app_dir = path_join app_dir ''scripts_series''"

definition file_path :: "string \<Rightarrow> string \<Rightarrow> string" where
  "file_path app_dir name = path_join (DL_DIR app_dir) name"

definition script_path :: "string \<Rightarrow> string \<Rightarrow> string" where
  "script_path app_dir sname = path_join (SCRIPTS_DIR app_dir) sname"

text \<open>
  The text written into a new companion script: the name of the script, the title and the
  date of the day, inside the fixed template.
\<close>

definition script_text :: "string \<Rightarrow> string \<Rightarrow> string \<Rightarrow> string" where
  "script_text sname serie_titulo today =
     concat
       [''# '' @ sname @ [CHR 0x0A],
        ''# Script asociado a la serie '' @ [CHR 0x27] @ serie_titulo @ [CHR 0x27, CHR 0x0A],
        ''# Creado el '' @ today @ [CHR 0x0A, CHR 0x0A],
        [CHR 0x22, CHR 0x22, CHR 0x22, CHR 0x0A],
        [CHR 0xBF] @ ''Por qu'' @ [CHR 0xE9] @ '' necesito una ruta robusta en este contexto?'' @ [CHR 0x0A],
        ''- Permite calcular rutas relativas al script, sin depender del directorio de ejecuci'' @ [CHR 0xF3] @ ''n.'' @ [CHR 0x0A],
        ''- Usa os.path.dirname(__file__) para construir rutas siempre v'' @ [CHR 0xE1] @ ''lidas.'' @ [CHR 0x0A],
        ''- Evita errores al mover la app o cambiar de m'' @ [CHR 0xE1] @ ''quina.'' @ [CHR 0x0A],
        [CHR 0x22, CHR 0x22, CHR 0x22, CHR 0x0A, CHR 0x0A],
        ''# Ejemplos de rutas robustas:'' @ [CHR 0x0A],
        ''# base = os.path.splitext(os.path.basename(__file__))[0]'' @ [CHR 0x0A],
        ''# output_dir = os.path.join(os.path.dirname(__file__), '' @ [CHR 0x27] @ ''series_transformadas'' @ [CHR 0x27] @ '')'' @ [CHR 0x0A],
        ''# os.makedirs(output_dir, exist_ok=True)'' @ [CHR 0x0A],
        [CHR 0x0A],
        [CHR 0x22, CHR 0x22, CHR 0x22, CHR 0x0A],
        [CHR 0xBF] @ ''Qu'' @ [CHR 0xE9] @ '' son los requisitos?'' @ [CHR 0x0A],
        ''- Son los requisitos necesarios para ejecutar este script.'' @ [CHR 0x0A],
        ''- Ejemplos: serie IPC actualizada, un archivo o recurso determinado.'' @ [CHR 0x0A],
        ''- SON OPCIONALES. Solo se mostrar'' @ [CHR 0xE1] @ ''n en la aplicaci'' @ [CHR 0xF3] @ ''n antes de que inicies la descarga.'' @ [CHR 0x0A],
        [CHR 0x22, CHR 0x22, CHR 0x22, CHR 0x0A, CHR 0x0A],
        ''import os'' @ [CHR 0x0A],
        ''import json'' @ [CHR 0x0A, CHR 0x0A],
        ''# Crear carpeta requisitos_script y JSON de requisitos vac'' @ [CHR 0xED] @ ''o'' @ [CHR 0x0A],
        ''base_dir = os.path.dirname(__file__)'' @ [CHR 0x0A],
        ''requisitos_dir = os.path.join(base_dir, '' @ [CHR 0x27] @ ''requisitos_script'' @ [CHR 0x27] @ '')'' @ [CHR 0x0A],
        ''os.makedirs(requisitos_dir, exist_ok=True)'' @ [CHR 0x0A, CHR 0x0A],
        ''script_name = os.path.splitext(os.path.basename(__file__))[0]'' @ [CHR 0x0A],
        ''json_path = os.path.join(requisitos_dir, f'' @ [CHR 0x22] @ ''{script_name}_requisitos.json'' @ [CHR 0x22] @ '')'' @ [CHR 0x0A, CHR 0x0A],
        ''requisitos_data = {'' @ [CHR 0x0A],
        ''    '' @ [CHR 0x27] @ ''serie_titulo'' @ [CHR 0x27] @ '': '' @ [CHR 0x22] @ serie_titulo @ [CHR 0x22] @ '','' @ [CHR 0x0A],
        ''    '' @ [CHR 0x27] @ ''requisitos'' @ [CHR 0x27] @ '': []'' @ [CHR 0x0A],
        ''}'' @ [CHR 0x0A, CHR 0x0A],
        ''with open(json_path, '' @ [CHR 0x27] @ ''w'' @ [CHR 0x27] @ '', encoding='' @ [CHR 0x27] @ ''utf-8'' @ [CHR 0x27] @ '') as rf:'' @ [CHR 0x0A],
        ''    json.dump(requisitos_data, rf, ensure_ascii=False, indent=4)'' @ [CHR 0x0A],
        ''# ----------------------------------------------------------------------------------------------'' @ [CHR 0x0A],
        ''# TODO: Agrega tus manipulaciones aqu'' @ [CHR 0xED, CHR 0x0A],
        ''# ----------------------------------------------------------------------------------------------'']"

text \<open>
  The files are a map from paths to contents. What the program cannot decide is given by
  the environment: the module \<^verbatim>\<open>requests\<close>, which paths can be opened for writing, what
  running a script with the interpreter does (it raises, or it completes with an exit code
  and a standard error, and it may change the files), the date and the directory of the
  program.
\<close>

type_synonym files = "string \<rightharpoonup> string"

record completed =
  returncode :: int
  stderr :: string

record environment =
  env_requests :: requests_module
  env_writable :: "string \<Rightarrow> bool"
  env_run :: "string \<Rightarrow> string \<Rightarrow> files \<Rightarrow> (error + completed) \<times> files"
  env_today :: string
  env_app_dir :: string

text \<open>\<^verbatim>\<open>with open(path, "w") as f: f.write(content)\<close>.\<close>

definition open_write :: "environment \<Rightarrow> files \<Rightarrow> string \<Rightarrow> string \<Rightarrow> error + files" where
  "open_write env fs path content =
     (if env_writable env path then Inr (fs(path \<mapsto> content)) else Inl (OSError path))"

text \<open>
  The script is written only if no file exists at its path. The result has the files, the
  note shown and the paths written.
\<close>

definition ensure_script ::
  "environment \<Rightarrow> string \<Rightarrow> files \<Rightarrow> error + files \<times> notice list \<times> string list" where
  "ensure_script env serie_titulo fs =
     (let sname = script_name serie_titulo;
          spath = script_path (env_app_dir env) sname
      in if fs spath = None then
           (case open_write env fs spath (script_text sname serie_titulo (env_today env)) of
              Inl e \<Rightarrow> Inl e
            | Inr fs' \<Rightarrow> Inr (fs', [ScriptCreated sname], [spath]))
         else Inr (fs, [], []))"

text \<open>
  \<^verbatim>\<open>subprocess.run([sys.executable, script_path, file_path], ...)\<close> and the note on its
  exit code; an exception of the call itself is the left case.
\<close>

definition execute_script ::
  "environment \<Rightarrow> string \<Rightarrow> string \<Rightarrow> files \<Rightarrow> (error + notice) \<times> files" where
  "execute_script env spath fpath fs =
     (case env_run env spath fpath fs of
        (Inl e, fs') \<Rightarrow> (Inl e, fs')
      | (Inr result, fs') \<Rightarrow>
          (Inr (if returncode result = 0 then ScriptRan else ScriptFailed (stderr result)), fs'))"

text \<open>
  The handler of the save button, for the selected row and the two date fields: the files
  afterwards, the notes shown in order, and the paths the handler wrote in order. Every
  exception inside the block ends it with the note of the handler.
\<close>

record outcome =
  out_files :: files
  out_notices :: "notice list"
  out_written :: "string list"

definition save_on_server ::
  "environment \<Rightarrow> string \<Rightarrow> string \<Rightarrow> string \<Rightarrow> string \<Rightarrow> files \<Rightarrow> outcome" where
  "save_on_server env serie_id serie_titulo start_date end_date fs =
     (let start = strip_or_None start_date;
          end = strip_or_None end_date;
          api_url = build_api_url serie_id start end;
          name = fname serie_titulo start_date end_date;
          fpath = file_path (env_app_dir env) name;
          spath = script_path (env_app_dir env) (script_name serie_titulo)
      in case fst (download_series (env_requests env) api_url) of
           Inl e \<Rightarrow> \<lparr>out_files = fs, out_notices = [SaveFailed e], out_written = []\<rparr>
         | Inr content \<Rightarrow>
             (case open_write env fs fpath content of
                Inl e \<Rightarrow> \<lparr>out_files = fs, out_notices = [SaveFailed e], out_written = []\<rparr>
              | Inr fs1 \<Rightarrow>
                  (case ensure_script env serie_titulo fs1 of
                     Inl e \<Rightarrow>
                       \<lparr>out_files = fs1, out_notices = [SavedOnServer name, SaveFailed e],
                        out_written = [fpath]\<rparr>
                   | Inr (fs2, created, ws) \<Rightarrow>
                       (case execute_script env spath fpath fs2 of
                          (Inl e, fs3) \<Rightarrow>
                            \<lparr>out_files = fs3,
                             out_notices = SavedOnServer name # created @ [SaveFailed e],
                             out_written = fpath # ws\<rparr>
                        | (Inr note, fs3) \<Rightarrow>
                            \<lparr>out_files = fs3,
                             out_notices = SavedOnServer name # created @ [note],
                             out_written = fpath # ws\<rparr>))))"

text \<open>
  A run that leaves the script file as it is, whatever else it does, and one that leaves
  the downloaded file as it is.
\<close>

definition keeps_script :: "environment \<Rightarrow> string \<Rightarrow> string \<Rightarrow> bool" where
  "keeps_script env spath fpath = (\<forall>fs. snd (env_run env spath fpath fs) spath = fs spath)"

definition keeps_download :: "environment \<Rightarrow> string \<Rightarrow> string \<Rightarrow> bool" where
  "keeps_download env spath fpath = (\<forall>fs. snd (env_run env spath fpath fs) fpath = fs fpath)"

text \<open>
  An environment for examples: every request is answered with the given body, every path
  can be written, and the script exits with the given code after writing a requirements
  file in the directory beside the scripts.
\<close>

definition sample_env :: "string \<Rightarrow> int \<Rightarrow> environment" where
  "sample_env body code =
     \<lparr>env_requests = Some (\<lambda>url timeout. Response 200 body),
      env_writable = (\<lambda>path. True),
      env_run = (\<lambda>spath fpath fs.
         (Inr \<lparr>returncode = code, stderr = (if code = 0 then [] else ''Traceback'')\<rparr>,
          fs(''/app/scripts_series/requisitos_script/requisitos.json'' \<mapsto> ''{}''))),
      env_today = ''2024-05-01'',
      env_app_dir = ''/app''\<rparr>"

section \<open>Properties of the text functions\<close>





lemma join_Cons: "ws \<noteq> [] \<Longrightarrow> join sep (w # ws) = w @ sep @ join sep ws"
  by (cases ws) auto








lemma fname_formula:
  "fname title sd ed =
     (if strip sd = [] \<and> strip ed = [] then slugify title @ ''.csv''
      else slugify title @ ''_'' @ join ''_'' (filter (\<lambda>p. p \<noteq> []) [strip sd, strip ed]) @ ''.csv'')"
  by (simp add: fname_def strip_or_None_def Let_def)

lemma hex_digit_in: "hex_digit d \<in> set ''0123456789ABCDEF''"
  unfolding hex_digit_def by (rule nth_mem) simp

lemma always_safe_char:
  assumes "always_safe b"
  shows "char_of b \<noteq> CHR ''&''" "char_of b \<noteq> CHR ''=''"
  using assms by (auto simp: always_safe_def char_of_eq_iff take_bit_eq_mod)

lemma hex_digit_neq: "hex_digit d \<noteq> CHR ''&''" "hex_digit d \<noteq> CHR ''=''"
  using hex_digit_in[of d] by auto

lemma quote_byte_chars:
  "c \<in> set (quote_byte b) \<Longrightarrow> c \<noteq> CHR ''&'' \<and> c \<noteq> CHR ''=''"
  by (cases "always_safe b") (auto simp: quote_byte_def hex_digit_neq always_safe_char)

lemma quote_plus_chars:
  "c \<in> set (quote_plus s) \<Longrightarrow> c \<noteq> CHR ''&'' \<and> c \<noteq> CHR ''=''"
  using quote_byte_chars by (auto simp: quote_plus_def split: if_splits)

lemma split_on_no_sep: "sep \<notin> set xs \<Longrightarrow> split_on sep xs = [xs]"
  by (induction xs) auto

lemma split_on_append:
  "sep \<notin> set xs \<Longrightarrow> split_on sep (xs @ sep # ys) = xs # split_on sep ys"
  by (induction xs) auto

lemma quote_plus_ids: "quote_plus ''ids'' = ''ids''"
  "quote_plus ''start_date'' = ''start_date''" "quote_plus ''end_date'' = ''end_date''"
  by code_simp+

lemma build_api_url_text:
  "build_api_url sid start end =
     API_BASE @ ''ids='' @ quote_plus sid
       @ (if truthy start then ''&start_date='' @ quote_plus (the start) else [])
       @ (if truthy end then ''&end_date='' @ quote_plus (the end) else [])"
  by (cases start; cases "end") (auto simp: build_api_url_def urlencode_def quote_plus_ids)

lemma split_on_join:
  "\<forall>s\<in>set segs. sep \<notin> set s \<Longrightarrow> segs \<noteq> [] \<Longrightarrow> split_on sep (join [sep] segs) = segs"
proof (induction segs)
  case Nil
  then show ?case by simp
next
  case (Cons w ws)
  show ?case
  proof (cases ws)
    case Nil
    then show ?thesis using Cons.prems by (simp add: split_on_no_sep)
  next
    case (Cons v vs)
    then have "join [sep] (w # ws) = w @ sep # join [sep] ws" by simp
    then show ?thesis using Cons.IH Cons.prems Cons by (simp add: split_on_append)
  qed
qed

lemma item_split:
  "CHR ''='' \<notin> set k \<Longrightarrow>
   (takeWhile (\<lambda>c. c \<noteq> CHR ''='') (k @ ''='' @ v), drop 1 (dropWhile (\<lambda>c. c \<noteq> CHR ''='') (k @ ''='' @ v))) = (k, v)"
  by (induction k) auto

lemma query_items_urlencode:
  assumes "q \<noteq> []"
  shows "query_items (API_BASE @ urlencode q) =
           (''format'', ''csv'') # map (\<lambda>(k, v). (quote_plus k, quote_plus v)) q"
proof -
  let ?items = "map (\<lambda>(k, v). quote_plus k @ ''='' @ quote_plus v) q"
  have ne: "?items \<noteq> []" using assms by simp
  have 1: "drop 1 (dropWhile (\<lambda>c. c \<noteq> CHR ''?'') (API_BASE @ urlencode q))
             = join ''&'' (''format=csv'' # ?items)"
    unfolding join_Cons[OF ne] by (simp add: API_BASE_def urlencode_def)
  have 2: "\<forall>s\<in>set (''format=csv'' # ?items). CHR ''&'' \<notin> set s"
    using quote_plus_chars by (auto simp: image_iff)
  have 3: "split_on (CHR ''&'') (join ''&'' (''format=csv'' # ?items)) = ''format=csv'' # ?items"
    using split_on_join[OF 2] by simp
  have 4: "(takeWhile (\<lambda>c. c \<noteq> CHR ''='') (quote_plus k @ ''='' @ quote_plus v),
            drop 1 (dropWhile (\<lambda>c. c \<noteq> CHR ''='') (quote_plus k @ ''='' @ quote_plus v)))
           = (quote_plus k, quote_plus v)" for k v
    by (rule item_split) (use quote_plus_chars in blast)
  show ?thesis
    unfolding query_items_def 1 3 using 4 by (auto simp: case_prod_beta)
qed

lemma query_items_build_api_url:
  "query_items (build_api_url sid start end) =
     [(''format'', ''csv''), (''ids'', quote_plus sid)]
       @ (if truthy start then [(''start_date'', quote_plus (the start))] else [])
       @ (if truthy end then [(''end_date'', quote_plus (the end))] else [])"
proof -
  define q where "q = [(''ids'', sid)]
       @ (if truthy start then [(''start_date'', the start)] else [])
       @ (if truthy end then [(''end_date'', the end)] else [])"
  have "build_api_url sid start end = API_BASE @ urlencode q"
    by (cases start; cases "end") (auto simp: build_api_url_def q_def)
  moreover have "q \<noteq> []" by (simp add: q_def)
  ultimately show ?thesis
    using query_items_urlencode[of q] by (simp add: q_def quote_plus_ids)
qed

lemma re_sub_dash_no_slug:
  "\<forall>c\<in>set s. \<not> is_slug_char c \<Longrightarrow> re_sub_dash s = (if s = [] then [] else ''-'')"
proof (cases s)
  case Nil
  then show ?thesis by simp
next
  case (Cons a list)
  assume h: "\<forall>c\<in>set s. \<not> is_slug_char c"
  then have d: "dropWhile (\<lambda>d. \<not> is_slug_char d) list = []"
    using Cons by (simp add: dropWhile_eq_Nil_conv)
  show ?thesis using h by (simp add: Cons d)
qed

lemma slugify_no_slug:
  assumes "\<forall>c\<in>set (lower txt). \<not> is_slug_char c"
  shows "slugify txt = []"
  using re_sub_dash_no_slug[OF assms] by (simp add: slugify_def strip_chars_def)

lemma fname_no_dates: "fname t [] [] = slugify t @ ''.csv''"
  by (simp add: fname_formula strip_def)

section \<open>Properties of the table operations\<close>

lemma fillna_to_numeric: "fillna 0 (to_numeric pn v) = coerced pn v"
  by (simp add: fillna_def to_numeric_def coerced_def split: cell.splits option.splits)

lemma coerced_Num: "\<exists>x. coerced pn v = Num x"
  by (simp add: coerced_def split: cell.splits option.splits)

lemma map_of_zip_map_column:
  "length cols = length vals \<Longrightarrow>
   map_of (zip cols (map (\<lambda>(k, v). if k = c then f v else v) (zip cols vals))) k'
     = map_option (\<lambda>v. if k' = c then f v else v) (map_of (zip cols vals) k')"
  by (induction cols vals rule: list_induct2) auto

lemma cell_of_map_column:
  assumes "length cols = length vals" and "k' \<in> set cols"
  shows "cell_of cols (map (\<lambda>(k, v). if k = c then f v else v) (zip cols vals)) k'
     = (if k' = c then f (cell_of cols vals c) else cell_of cols vals k')"
proof -
  obtain v where "map_of (zip cols vals) k' = Some v"
    using assms by (metis map_of_zip_is_Some option.exhaust not_Some_eq)
  then show ?thesis
    by (cases "k' = c") (simp_all add: cell_of_def map_of_zip_map_column[OF assms(1)])
qed

lemma cell_of_add_column:
  assumes "length cols = length vals"
  shows "cell_of (cols @ [c]) (vals @ [v]) k
     = (if k \<in> set cols then cell_of cols vals k else if k = c then v else NaN)"
proof (cases "k \<in> set cols")
  case True
  then obtain w where w: "map_of (zip cols vals) k = Some w"
    using assms by (metis map_of_zip_is_Some not_Some_eq)
  show ?thesis using True assms by (simp add: cell_of_def map_add_def w)
next
  case False
  then have n: "map_of (zip cols vals) k = None"
    using assms by (metis map_of_zip_is_None)
  show ?thesis using False assms by (simp add: cell_of_def map_add_def n)
qed

lemma rectangular_add_column:
  "rectangular d \<Longrightarrow> c \<notin> set (columns d) \<Longrightarrow> rectangular (add_column c v d)"
  by (auto simp: rectangular_def add_column_def list_all_iff)

lemma rectangular_map_column:
  "rectangular d \<Longrightarrow> rectangular (map_column c f d)"
  by (auto simp: rectangular_def map_column_def list_all_iff)

lemma rows_map_column_cells:
  assumes "rectangular d" and "c \<in> set (columns d)"
  shows "map (\<lambda>r. cell_of (columns (map_column c f d)) (snd r) c) (rows (map_column c f d))
       = map (\<lambda>r. f (cell_of (columns d) (snd r) c)) (rows d)"
  using assms
  by (auto simp: rectangular_def map_column_def list_all_iff cell_of_map_column)

lemma rows_add_column_cells:
  assumes "rectangular d" and "c \<notin> set (columns d)"
  shows "map (\<lambda>r. cell_of (columns (add_column c v d)) (snd r) c) (rows (add_column c v d))
       = map (\<lambda>r. v) (rows d)"
  using assms
  by (auto simp: rectangular_def add_column_def list_all_iff cell_of_add_column)

lemma load_catalog_Inr:
  assumes "load_catalog requests read_csv pn = (Inr df, notices)"
  obtains b d where "read_csv b = Inr d"
    and "df = map_column ''consultas_90_dias'' (fillna 0 \<circ> to_numeric pn)
                (if ''consultas_90_dias'' \<notin> set (columns d)
                 then add_column ''consultas_90_dias'' (Num 0) d else d)"
  using assms
  by (auto simp: load_catalog_def Let_def split: option.splits sum.splits prod.splits)

lemma normalized_counts:
  fixes pn :: "string \<Rightarrow> real option"
  assumes "rectangular d"
  defines "c \<equiv> ''consultas_90_dias''"
  defines "df \<equiv> map_column c (fillna 0 \<circ> to_numeric pn)
                (if c \<notin> set (columns d) then add_column c (Num 0) d else d)"
  shows "c \<in> set (columns df)"
    and "map fst (rows df) = map fst (rows d)"
    and "map (\<lambda>r. cell_of (columns df) (snd r) c) (rows df)
         = map (\<lambda>r. if c \<in> set (columns d) then coerced pn (cell_of (columns d) (snd r) c) else Num 0)
             (rows d)"
proof -
  let ?e = "if c \<notin> set (columns d) then add_column c (Num 0) d else d"
  have re: "rectangular ?e" using assms(1) by (simp add: rectangular_add_column)
  have ce: "c \<in> set (columns ?e)" by (simp add: add_column_def)
  show "c \<in> set (columns df)" using ce by (simp add: df_def map_column_def)
  show "map fst (rows df) = map fst (rows d)"
    by (auto simp: df_def map_column_def add_column_def)
  have "map (\<lambda>r. cell_of (columns df) (snd r) c) (rows df)
        = map (\<lambda>r. coerced pn (cell_of (columns ?e) (snd r) c)) (rows ?e)"
    unfolding df_def rows_map_column_cells[OF re ce] by (simp add: fillna_to_numeric)
  also have "\<dots> = map (\<lambda>r. if c \<in> set (columns d) then coerced pn (cell_of (columns d) (snd r) c) else Num 0)
             (rows d)"
  proof (cases "c \<in> set (columns d)")
    case True
    then show ?thesis by simp
  next
    case False
    have "map (\<lambda>r. coerced pn (cell_of (columns ?e) (snd r) c)) (rows ?e)
          = map (coerced pn) (map (\<lambda>r. cell_of (columns (add_column c (Num 0) d)) (snd r) c) (rows (add_column c (Num 0) d)))"
      using False by simp
    also have "\<dots> = map (coerced pn) (map (\<lambda>r. Num 0) (rows d))"
      using rows_add_column_cells[OF assms(1) False] by simp
    finally show ?thesis using False by (simp add: coerced_def)
  qed
  finally show "map (\<lambda>r. cell_of (columns df) (snd r) c) (rows df)
         = map (\<lambda>r. if c \<in> set (columns d) then coerced pn (cell_of (columns d) (snd r) c) else Num 0)
             (rows d)" .
qed

lemma negative_csv_read:
  "load_catalog (Some (\<lambda>url timeout. Response 200 negative_csv))
     (table_reader [(negative_csv, negative_table)]) (\<lambda>s. None) = (Inr negative_table, [])"
  by (simp add: load_catalog_def requests_get_def table_reader_def negative_table_def
      map_column_def fillna_def to_numeric_def)

lemma table_reader_rectangular:
  "list_all (\<lambda>(t, d). rectangular d) known \<Longrightarrow> table_reader known b = Inr d \<Longrightarrow> rectangular d"
  by (auto simp: table_reader_def list_all_iff split: option.splits dest!: map_of_SomeD)

section \<open>Properties of the title filter and of the column order\<close>

lemma re_compile_literal:
  "\<forall>c\<in>set q. \<not> re_special c \<Longrightarrow> re_compile q = Some (map Lit q)"
  by (induction q) (auto simp: re_special_def)

lemma match_here_literal: "match_here (map Lit q) t \<longleftrightarrow> prefix (lower q) (lower t)"
proof (induction q arbitrary: t)
  case Nil
  then show ?case by (simp add: lower_def)
next
  case (Cons p q)
  then show ?case by (cases t) (auto simp: lower_def)
qed

lemma re_search_literal: "re_search (map Lit q) t \<longleftrightarrow> sublist (lower q) (lower t)"
proof (induction t)
  case Nil
  show ?case using match_here_literal[of q "[]"] by (simp add: lower_def)
next
  case (Cons c t)
  have "lower (c # t) = lower_char c # lower t" by (simp add: lower_def)
  then show ?case
    using Cons match_here_literal[of q "c # t"] by (simp add: sublist_Cons_right)
qed

lemma str_contains_literal:
  "str_contains (map Lit q) (cell_of cols (snd r) ''serie_titulo'') = title_contains q cols r"
  by (simp add: str_contains_def title_contains_def re_search_literal split: cell.splits)

lemma cell_of_select:
  "c \<in> set cs \<Longrightarrow> cell_of cs (map f cs) c = f c"
  by (simp add: cell_of_def map_of_zip_map)

lemma map_cell_of_self:
  assumes "distinct cols" and "length vals = length cols"
  shows "map (cell_of cols vals) cols = vals"
proof -
  have "cell_of cols vals (cols ! i) = vals ! i" if "i < length cols" for i
  proof -
    have "map_of (zip cols vals) (cols ! i) = Some (vals ! i)"
      using that assms by (intro map_of_zip_nth) auto
    then show ?thesis by (simp add: cell_of_def)
  qed
  then show ?thesis using assms by (intro nth_equalityI) auto
qed

lemma column_order_set:
  "set (filter (\<lambda>c. c \<in> set cols) pref
        @ filter (\<lambda>c. c \<notin> set (filter (\<lambda>c. c \<in> set cols) pref)) cols) = set cols"
  by auto

lemma column_order_remaining:
  "filter (\<lambda>c. c \<notin> set (filter (\<lambda>c. c \<in> set cols) pref)) cols = filter (\<lambda>c. c \<notin> set pref) cols"
  by (rule filter_cong) auto

lemma column_order_distinct:
  "distinct cols \<Longrightarrow> distinct pref \<Longrightarrow>
   distinct (filter (\<lambda>c. c \<in> set cols) pref @ filter (\<lambda>c. c \<notin> set pref) cols)"
  by auto

lemma reorder_columns_shape:
  assumes "rectangular df" and "distinct preferred"
  shows "\<exists>df'. reorder_columns preferred df = Inr df'
     \<and> columns df' = filter (\<lambda>c. c \<in> set (columns df)) preferred
                        @ filter (\<lambda>c. c \<notin> set preferred) (columns df)
     \<and> mset (columns df') = mset (columns df)
     \<and> distinct (columns df')
     \<and> map (\<lambda>r. (fst r, map (cell_of (columns df') (snd r)) (columns df))) (rows df') = rows df
     \<and> rectangular df'"
proof -
  define new where "new = filter (\<lambda>c. c \<in> set (columns df)) preferred
                @ filter (\<lambda>c. c \<notin> set preferred) (columns df)"
  define df' where "df' = \<lparr>columns = new,
               rows = map (\<lambda>(i, vals). (i, map (cell_of (columns df) vals) new)) (rows df)\<rparr>"
  have dc: "distinct (columns df)"
    and len: "\<And>r. r \<in> set (rows df) \<Longrightarrow> length (snd r) = length (columns df)"
    using assms(1) by (auto simp: rectangular_def list_all_iff)
  have set_new: "set new = set (columns df)"
    unfolding new_def by auto
  have dn: "distinct new"
    unfolding new_def using dc assms(2) by (rule column_order_distinct)
  have none: "filter (\<lambda>c. c \<notin> set (columns df)) new = []"
    using set_new by (simp add: filter_empty_conv)
  have 1: "reorder_columns preferred df = Inr df'"
    unfolding reorder_columns_def Let_def column_order_remaining select_columns_def
      new_def[symmetric] none df'_def
    by simp
  have 2: "mset new = mset (columns df)"
    by (rule iffD1[OF set_eq_iff_mset_eq_distinct[OF dn dc] set_new])
  have 3: "map (\<lambda>r. (fst r, map (cell_of new (snd r)) (columns df))) (rows df') = rows df"
  proof -
    have "(fst r, map (cell_of new (map (cell_of (columns df) (snd r)) new)) (columns df)) = r"
      if "r \<in> set (rows df)" for r
    proof -
      have "map (cell_of new (map (cell_of (columns df) (snd r)) new)) (columns df)
            = map (cell_of (columns df) (snd r)) (columns df)"
        by (rule map_cong) (simp_all add: set_new cell_of_select)
      also have "\<dots> = snd r"
        using dc len[OF that] by (rule map_cell_of_self)
      finally show ?thesis by simp
    qed
    then have "map (\<lambda>r. (fst r, map (cell_of new (map (cell_of (columns df) (snd r)) new)) (columns df))) (rows df)
               = map (\<lambda>r. r) (rows df)"
      by (intro map_cong) auto
    then show ?thesis by (simp add: df'_def case_prod_beta comp_def)
  qed
  have 4: "rectangular df'"
    using dn by (simp add: df'_def rectangular_def list_all_iff case_prod_beta)
  have 5: "columns df' = new" by (simp add: df'_def)
  show ?thesis
    by (rule exI[of _ df']) (use 1 2 3 4 5 dn in \<open>simp add: new_def[symmetric]\<close>)
qed

lemma preferred_order_distinct: "distinct preferred_order"
  by (simp add: preferred_order_def)

lemma reorder_example:
  "reorder_columns [''A'', ''C''] \<lparr>columns = [''B'', ''C'', ''A'', ''D''], rows = [(i, [b, c, a, d])]\<rparr>
     = Inr \<lparr>columns = [''A'', ''C'', ''B'', ''D''], rows = [(i, [a, c, b, d])]\<rparr>"
  by (simp add: reorder_columns_def select_columns_def cell_of_def)

lemma reorder_embedded:
  "reorder_columns preferred_order embedded_table
     = Inr \<lparr>columns = [''consultas_90_dias'', ''dataset_descripcion'', ''dataset_tema'',
                        ''serie_id'', ''serie_titulo'', ''serie_descripcion''],
            rows = [(0, [Num 999, Str ''Dataset de prueba'', Str ''Actividad'', Str ''TEST123'',
                         Str ''Serie de ejemplo'', Str ''Desc corta''])]\<rparr>"
  by (simp add: reorder_columns_def select_columns_def cell_of_def preferred_order_def embedded_table_def)

section \<open>Properties of the save handler\<close>

lemma last_path_join: "b \<noteq> [] \<Longrightarrow> last (path_join a b) = last b"
  by (simp add: path_join_def)

lemma fname_last: "fname t sd ed \<noteq> [] \<and> last (fname t sd ed) = CHR ''v''"
  by (simp add: fname_formula)

lemma script_name_last: "script_name t \<noteq> [] \<and> last (script_name t) = CHR ''y''"
  by (simp add: script_name_def)

lemma paths_differ:
  "file_path a (fname t sd ed) \<noteq> script_path a' (script_name t')"
proof
  assume "file_path a (fname t sd ed) = script_path a' (script_name t')"
  then have "last (file_path a (fname t sd ed)) = last (script_path a' (script_name t'))"
    by simp
  then show False
    using fname_last[of t sd ed] script_name_last[of t']
    by (simp add: file_path_def script_path_def last_path_join)
qed

lemma ensure_script_exists:
  "fs (script_path (env_app_dir env) (script_name t)) \<noteq> None \<Longrightarrow>
   ensure_script env t fs = Inr (fs, [], [])"
  by (auto simp: ensure_script_def Let_def)

lemma ensure_script_Inr:
  assumes "ensure_script env t fs = Inr (fs', ns, ws)"
  defines "sp \<equiv> script_path (env_app_dir env) (script_name t)"
  shows "fs' sp \<noteq> None"
    and "p \<noteq> sp \<Longrightarrow> fs' p = fs p"
    and "ws = (if fs sp = None then [sp] else [])"
    and "ns = (if fs sp = None then [ScriptCreated (script_name t)] else [])"
    and "fs sp \<noteq> None \<Longrightarrow> fs' = fs"
  using assms
  by (auto simp: ensure_script_def Let_def open_write_def split: if_splits sum.splits)

lemma ensure_script_count:
  "ensure_script env t fs = Inr (fs', ns, ws) \<Longrightarrow>
   count_list ws (script_path (env_app_dir env) (script_name t)) \<le> 1"
  using ensure_script_Inr(3)[of env t fs fs' ns ws] by (simp split: if_splits)

lemma ensure_script_present:
  "ensure_script env t fs = Inr (fs', ns, ws) \<Longrightarrow>
   fs' (script_path (env_app_dir env) (script_name t)) = None \<Longrightarrow> False"
  using ensure_script_Inr(1) by blast

lemma save_on_server_unfold:
  "save_on_server env sid t sd ed fs =
     (let fp = file_path (env_app_dir env) (fname t sd ed);
          sp = script_path (env_app_dir env) (script_name t)
      in case fst (download_series (env_requests env)
                     (build_api_url sid (strip_or_None sd) (strip_or_None ed))) of
           Inl e \<Rightarrow> \<lparr>out_files = fs, out_notices = [SaveFailed e], out_written = []\<rparr>
         | Inr content \<Rightarrow>
             if \<not> env_writable env fp
             then \<lparr>out_files = fs, out_notices = [SaveFailed (OSError fp)], out_written = []\<rparr>
             else (case ensure_script env t (fs(fp \<mapsto> content)) of
                     Inl e \<Rightarrow> \<lparr>out_files = fs(fp \<mapsto> content),
                               out_notices = [SavedOnServer (fname t sd ed), SaveFailed e],
                               out_written = [fp]\<rparr>
                   | Inr (fs2, created, ws) \<Rightarrow>
                       \<lparr>out_files = snd (env_run env sp fp fs2),
                        out_notices = SavedOnServer (fname t sd ed) # created
                          @ [case fst (env_run env sp fp fs2) of
                               Inl e \<Rightarrow> SaveFailed e
                             | Inr r \<Rightarrow> if returncode r = 0 then ScriptRan
                                        else ScriptFailed (stderr r)],
                        out_written = fp # ws\<rparr>))"
  by (simp add: save_on_server_def Let_def open_write_def execute_script_def
      split: sum.splits prod.splits)

lemma save_on_server_script_exists:
  assumes "fs (script_path (env_app_dir env) (script_name t)) \<noteq> None"
  shows "script_path (env_app_dir env) (script_name t) \<notin> set (out_written (save_on_server env sid t sd ed fs))"
    and "keeps_script env (script_path (env_app_dir env) (script_name t)) (file_path (env_app_dir env) (fname t sd ed)) \<Longrightarrow>
         out_files (save_on_server env sid t sd ed fs) (script_path (env_app_dir env) (script_name t))
           = fs (script_path (env_app_dir env) (script_name t))"
proof -
  let ?sp = "script_path (env_app_dir env) (script_name t)"
  let ?fp = "file_path (env_app_dir env) (fname t sd ed)"
  have ne: "?fp \<noteq> ?sp" by (rule paths_differ)
  have es: "ensure_script env t (fs(?fp \<mapsto> c)) = Inr (fs(?fp \<mapsto> c), [], [])" for c
    using assms ne by (intro ensure_script_exists) simp
  show "?sp \<notin> set (out_written (save_on_server env sid t sd ed fs))"
    using ne by (simp add: save_on_server_unfold Let_def es split: sum.splits)
  show "out_files (save_on_server env sid t sd ed fs) ?sp = fs ?sp" if "keeps_script env ?sp ?fp"
    using ne that by (simp add: save_on_server_unfold Let_def es keeps_script_def split: sum.splits)
qed

lemma save_on_server_written:
  defines "sp \<equiv> \<lambda>env t. script_path (env_app_dir env) (script_name t)"
  shows "count_list (out_written (save_on_server env sid t sd ed fs)) (sp env t) \<le> 1"
    and "keeps_script env (sp env t) (file_path (env_app_dir env) (fname t sd ed)) \<Longrightarrow> sp env t \<in> set (out_written (save_on_server env sid t sd ed fs)) \<Longrightarrow>
         out_files (save_on_server env sid t sd ed fs) (sp env t) \<noteq> None"
proof -
  let ?fp = "file_path (env_app_dir env) (fname t sd ed)"
  have ne: "?fp \<noteq> sp env t" unfolding sp_def by (rule paths_differ)
  show "count_list (out_written (save_on_server env sid t sd ed fs)) (sp env t) \<le> 1"
    using ne
    by (auto simp: save_on_server_unfold Let_def sp_def split: sum.splits dest: ensure_script_count)
  show "out_files (save_on_server env sid t sd ed fs) (sp env t) \<noteq> None"
    if k: "keeps_script env (sp env t) ?fp"
      and w: "sp env t \<in> set (out_written (save_on_server env sid t sd ed fs))"
  proof (cases "fst (download_series (env_requests env)
                     (build_api_url sid (strip_or_None sd) (strip_or_None ed)))")
    case (Inl e)
    then show ?thesis using w by (simp add: save_on_server_unfold Let_def)
  next
    case (Inr content)
    show ?thesis
    proof (cases "env_writable env ?fp")
      case False
      then show ?thesis using w Inr by (simp add: save_on_server_unfold Let_def)
    next
      case True
      show ?thesis
      proof (cases "ensure_script env t (fs(?fp \<mapsto> content))")
        case (Inl e)
        then show ?thesis using w Inr True ne by (simp add: save_on_server_unfold Let_def)
      next
        case es: (Inr res)
        obtain fs2 created ws where res: "res = (fs2, created, ws)" by (cases res) auto
        have "fs2 (sp env t) \<noteq> None"
          using ensure_script_Inr(1)[OF es[unfolded res]] by (simp add: sp_def)
        moreover have "out_files (save_on_server env sid t sd ed fs) (sp env t) = fs2 (sp env t)"
          using k Inr True es res
          by (simp add: save_on_server_unfold Let_def keeps_script_def sp_def)
        ultimately show ?thesis by simp
      qed
    qed
  qed
qed

lemma save_on_server_csv:
  assumes "fst (download_series (env_requests env)
                  (build_api_url sid (strip_or_None sd) (strip_or_None ed))) = Inr content"
    and "env_writable env (file_path (env_app_dir env) (fname t sd ed))"
  shows "file_path (env_app_dir env) (fname t sd ed) \<in> set (out_written (save_on_server env sid t sd ed fs))"
  using assms by (auto simp: save_on_server_unfold Let_def split: sum.splits)

lemma sample_paths:
  "script_name ''Serie de ejemplo'' = ''serie-de-ejemplo.py''"
  "fname ''Serie de ejemplo'' [] [] = ''serie-de-ejemplo.csv''"
  "fname ''Serie de ejemplo'' ''2020-01-01'' [] = ''serie-de-ejemplo_2020-01-01.csv''"
  "script_path ''/app'' ''serie-de-ejemplo.py'' = ''/app/scripts_series/serie-de-ejemplo.py''"
  "file_path ''/app'' ''serie-de-ejemplo.csv'' = ''/app/descargas/serie-de-ejemplo.csv''"
  "file_path ''/app'' ''serie-de-ejemplo_2020-01-01.csv''
     = ''/app/descargas/serie-de-ejemplo_2020-01-01.csv''"
  by code_simp+

lemma sample_env_simps:
  "env_requests (sample_env body code) = Some (\<lambda>url timeout. Response 200 body)"
  "env_writable (sample_env body code) p"
  "env_app_dir (sample_env body code) = ''/app''"
  "env_today (sample_env body code) = ''2024-05-01''"
  "env_run (sample_env body code) spath fpath fs =
     (Inr \<lparr>returncode = code, stderr = (if code = 0 then [] else ''Traceback'')\<rparr>,
      fs(''/app/scripts_series/requisitos_script/requisitos.json'' \<mapsto> ''{}''))"
  by (simp_all add: sample_env_def)

lemma sample_download:
  "fst (download_series (Some (\<lambda>url timeout. Response 200 body)) url) = Inr body"
  by (simp add: download_series_def requests_get_def)

lemma sample_first_run:
  "out_written (save_on_server (sample_env body code) sid ''Serie de ejemplo'' [] [] Map.empty)
     = [''/app/descargas/serie-de-ejemplo.csv'', ''/app/scripts_series/serie-de-ejemplo.py'']"
  "out_notices (save_on_server (sample_env body code) sid ''Serie de ejemplo'' [] [] Map.empty)
     = [SavedOnServer ''serie-de-ejemplo.csv'', ScriptCreated ''serie-de-ejemplo.py'',
        if code = 0 then ScriptRan else ScriptFailed ''Traceback'']"
  "out_files (save_on_server (sample_env body code) sid ''Serie de ejemplo'' [] [] Map.empty)
     ''/app/scripts_series/serie-de-ejemplo.py'' \<noteq> None"
  by (simp_all add: save_on_server_unfold Let_def sample_download sample_env_simps sample_paths
      ensure_script_def open_write_def)

lemma sample_second_run:
  assumes "fs ''/app/scripts_series/serie-de-ejemplo.py'' \<noteq> None"
  shows "out_written (save_on_server (sample_env body code) sid ''Serie de ejemplo'' ''2020-01-01'' [] fs)
     = [''/app/descargas/serie-de-ejemplo_2020-01-01.csv'']"
  using assms
  by (auto simp: save_on_server_unfold Let_def sample_download sample_env_simps sample_paths
      ensure_script_def open_write_def)

lemma sample_keeps:
  "keeps_script (sample_env body code) ''/app/scripts_series/serie-de-ejemplo.py'' fpath"
  "keeps_download (sample_env body code) spath ''/app/descargas/serie-de-ejemplo.csv''"
  by (simp_all add: keeps_script_def keeps_download_def sample_env_simps)

section \<open>Properties of the sort step\<close>







lemma set_non_nan_idx:
  "set (non_nan_idx items asc) = {i. i < length items \<and> items ! i \<noteq> NaN}"
  by (auto simp: non_nan_idx_def Let_def)












lemma argsort_by_key:
  fixes f :: "cell \<Rightarrow> 'a::linorder"
  assumes "\<And>u v. u \<in> set ks \<Longrightarrow> v \<in> set ks \<Longrightarrow> f u \<le> f v \<Longrightarrow> cell_le u v"
  shows "is_argsort ks (sort_key (\<lambda>i. f (ks ! i)) [0..<length ks])"
proof -
  let ?p = "sort_key (\<lambda>i. f (ks ! i)) [0..<length ks]"
  have "mset [0..<length ks] = mset ?p" by simp
  then have 1: "sort ?p = [0..<length ks]"
    by (rule properties_for_sort) simp
  have "sorted (map (\<lambda>i. f (ks ! i)) ?p)" by (rule sorted_sort_key)
  then have "sorted_wrt (\<lambda>i j. f (ks ! i) \<le> f (ks ! j)) ?p"
    by (simp add: sorted_map)
  then have 2: "sorted_wrt (\<lambda>i j. cell_le (ks ! i) (ks ! j)) ?p"
    by (rule sorted_wrt_mono_rel[rotated]) (simp add: assms)
  show ?thesis using 1 2 by (simp add: is_argsort_def)
qed

lemma exists_argsort:
  assumes "NaN \<notin> set ks" and "comparable ks"
  shows "\<exists>p. is_argsort ks p"
proof -
  from assms(2) consider
      (nums) "\<forall>v\<in>set ks. case v of Str s \<Rightarrow> False | Num x \<Rightarrow> True | NaN \<Rightarrow> True"
    | (strs) "\<forall>v\<in>set ks. case v of Num x \<Rightarrow> False | Str s \<Rightarrow> True | NaN \<Rightarrow> True"
    by (auto simp: comparable_def list_all_iff)
  then show ?thesis
  proof cases
    case nums
    have "is_argsort ks (sort_key (\<lambda>i. (case ks ! i of Num x \<Rightarrow> x | Str s \<Rightarrow> 0 | NaN \<Rightarrow> 0))
                           [0..<length ks])"
    proof (rule argsort_by_key[where f = "\<lambda>v. case v of Num x \<Rightarrow> x | Str s \<Rightarrow> (0::real) | NaN \<Rightarrow> 0"])
      fix u v
      assume "u \<in> set ks" "v \<in> set ks"
        and "(case u of Num x \<Rightarrow> x | Str s \<Rightarrow> (0::real) | NaN \<Rightarrow> 0)
             \<le> (case v of Num x \<Rightarrow> x | Str s \<Rightarrow> 0 | NaN \<Rightarrow> 0)"
      note h = this
      obtain a where a: "u = Num a" using nums assms(1) h(1) by (cases u) auto
      obtain b where b: "v = Num b" using nums assms(1) h(2) by (cases v) auto
      show "cell_le u v" using h(3) by (simp add: a b)
    qed
    then show ?thesis by blast
  next
    case strs
    have "is_argsort ks (sort_key (\<lambda>i. (case ks ! i of Str s \<Rightarrow> s | Num x \<Rightarrow> [] | NaN \<Rightarrow> []))
                           [0..<length ks])"
    proof (rule argsort_by_key[where f = "\<lambda>v. case v of Str s \<Rightarrow> s | Num x \<Rightarrow> [] | NaN \<Rightarrow> []"])
      fix u v
      assume "u \<in> set ks" "v \<in> set ks"
        and "(case u of Str s \<Rightarrow> s | Num x \<Rightarrow> [] | NaN \<Rightarrow> [])
             \<le> (case v of Str s \<Rightarrow> s | Num x \<Rightarrow> [] | NaN \<Rightarrow> [])"
      note h = this
      obtain a where a: "u = Str a" using strs assms(1) h(1) by (cases u) auto
      obtain b where b: "v = Str b" using strs assms(1) h(2) by (cases v) auto
      show "cell_le u v" using h(3) by (simp add: a b)
    qed
    then show ?thesis by blast
  qed
qed

lemma non_nans_comparable:
  assumes "comparable items"
  shows "NaN \<notin> set (non_nans items asc)" and "comparable (non_nans items asc)"
proof -
  have sub: "set (non_nans items asc) \<subseteq> set items - {NaN}"
    by (auto simp: non_nans_def set_non_nan_idx)
  then show "NaN \<notin> set (non_nans items asc)" by blast
  show "comparable (non_nans items asc)"
    using assms sub unfolding comparable_def list_all_iff by blast
qed

lemma sort_values_total: "\<exists>res. sort_values order_col ascending df res"
proof (cases "order_col \<in> set (columns df)")
  case False
  then show ?thesis using sort_KeyError by blast
next
  case True
  show ?thesis
  proof (cases "comparable (sort_keys order_col df)")
    case False
    then show ?thesis using sort_TypeError[OF True] by blast
  next
    case c: True
    from exists_argsort[OF non_nans_comparable[OF c]] obtain p
      where "is_argsort (non_nans (sort_keys order_col df) ascending) p" by blast
    then show ?thesis using sort_rows[OF True] by blast
  qed
qed


section \<open>Claims on names and URLs\<close>



text \<open>
  C9. \<open>build_api_url\<close> is a function of its three arguments. Its result is the base
  address followed by \<^verbatim>\<open>ids=\<close> and the encoded identifier, then
  \<^verbatim>\<open>&start_date=\<close> and \<^verbatim>\<open>&end_date=\<close> with the encoded dates, each exactly when
  the date is given and not empty. Read back as a query string, its keys are
  \<^verbatim>\<open>format\<close>, \<^verbatim>\<open>ids\<close> and the date keys that were written, whatever the
  identifier contains. The two examples of the specification are evaluated.
\<close>

theorem build_api_url_query:
  "build_api_url serie_id start end =
     API_BASE @ ''ids='' @ quote_plus serie_id
       @ (if truthy start then ''&start_date='' @ quote_plus (the start) else [])
       @ (if truthy end then ''&end_date='' @ quote_plus (the end) else [])
   \<and> query_items (build_api_url serie_id start end) =
     [(''format'', ''csv''), (''ids'', quote_plus serie_id)]
       @ (if truthy start then [(''start_date'', quote_plus (the start))] else [])
       @ (if truthy end then [(''end_date'', quote_plus (the end))] else [])
   \<and> build_api_url ''ABC'' None None = API_BASE @ ''ids=ABC''
   \<and> map fst (query_items (build_api_url ''ABC'' None None)) = [''format'', ''ids'']
   \<and> build_api_url ''ABC'' (Some ''2020-01-01'') (Some ''2020-02-01'')
       = API_BASE @ ''ids=ABC&start_date=2020-01-01&end_date=2020-02-01''"
proof -
  have "build_api_url ''ABC'' None None = API_BASE @ ''ids=ABC''"
    by code_simp
  moreover have "map fst (query_items (build_api_url ''ABC'' None None)) = [''format'', ''ids'']"
    by (simp add: query_items_build_api_url)
  moreover have "build_api_url ''ABC'' (Some ''2020-01-01'') (Some ''2020-02-01'')
       = API_BASE @ ''ids=ABC&start_date=2020-01-01&end_date=2020-02-01''"
    by code_simp
  ultimately show ?thesis
    using build_api_url_text[of serie_id start "end"]
      query_items_build_api_url[of serie_id start "end"]
    by blast
qed

theorem build_api_url_query_witness:
  "build_api_url ''A B/1'' (Some ''2020-01-01'') (Some [])
     = ''https://apis.datos.gob.ar/series/api/series?format=csv&ids=A+B%2F1&start_date=2020-01-01''
   \<and> query_items (build_api_url ''A B/1'' (Some ''2020-01-01'') (Some []))
     = [(''format'', ''csv''), (''ids'', ''A+B%2F1''), (''start_date'', ''2020-01-01'')]"
proof -
  have q: "quote_plus ''A B/1'' = ''A+B%2F1''" "quote_plus ''2020-01-01'' = ''2020-01-01''"
    by code_simp+
  note t = build_api_url_query[of "''A B/1''" "Some ''2020-01-01''" "Some []"]
  have 1: "build_api_url ''A B/1'' (Some ''2020-01-01'') (Some [])
     = ''https://apis.datos.gob.ar/series/api/series?format=csv&ids=A+B%2F1&start_date=2020-01-01''"
    using t q by (simp add: API_BASE_def)
  have 2: "query_items (build_api_url ''A B/1'' (Some ''2020-01-01'') (Some []))
     = [(''format'', ''csv''), (''ids'', ''A+B%2F1''), (''start_date'', ''2020-01-01'')]"
    using conjunct1[OF conjunct2[OF t]] q by simp
  show ?thesis using 1 2 by (rule conjI)
qed

text \<open>
  C10. A title with no character of \<^verbatim>\<open>[a-z0-9]\<close> after lowering has the empty slug:
  without dates its file is \<^verbatim>\<open>.csv\<close> and its script \<^verbatim>\<open>.py\<close>, and two such
  titles share the file name (for the same dates) and the script name.
\<close>

theorem empty_slug_collision:
  assumes "\<forall>c\<in>set (lower t1). \<not> is_slug_char c" and "\<forall>c\<in>set (lower t2). \<not> is_slug_char c"
  shows "slugify t1 = [] \<and> fname t1 [] [] = ''.csv'' \<and> script_name t1 = ''.py''
         \<and> fname t1 start_date end_date = fname t2 start_date end_date
         \<and> script_name t1 = script_name t2"
proof -
  have a: "slugify t1 = []" and b: "slugify t2 = []"
    using assms by (simp_all add: slugify_no_slug)
  have "fname t1 [] [] = ''.csv''"
    by (simp add: fname_no_dates a)
  moreover have "fname t1 start_date end_date = fname t2 start_date end_date"
    by (simp only: fname_formula a b)
  moreover have "script_name t1 = ''.py''" "script_name t1 = script_name t2"
    by (simp_all add: script_name_def a b)
  ultimately show ?thesis using a by simp
qed

theorem empty_slug_collision_witness:
  "slugify ''!?'' = [] \<and> fname ''!?'' [] [] = ''.csv'' \<and> script_name ''!?'' = ''.py''
   \<and> fname ''!?'' ''2020-01-01'' [] = fname [CHR 0xC1, CHR 0xD1, CHR 0xE9] ''2020-01-01'' []
   \<and> script_name ''!?'' = script_name [CHR 0xC1, CHR 0xD1, CHR 0xE9]"
proof -
  have h1: "\<forall>c\<in>set (lower ''!?''). \<not> is_slug_char c"
    by code_simp
  have h2: "\<forall>c\<in>set (lower [CHR 0xC1, CHR 0xD1, CHR 0xE9]). \<not> is_slug_char c"
    by code_simp
  show ?thesis
    by (rule empty_slug_collision[OF h1 h2, of "''2020-01-01''" "[]"])
qed

section \<open>Claims on the catalogue and the download\<close>

text \<open>
  C1, as amended. In every table that \<open>load_catalog\<close> returns, from the network or from
  the embedded text, the column \<^verbatim>\<open>consultas_90_dias\<close> exists and every row holds a number
  there. The table is the one read from the text, with the same rows: where the column was
  absent every row holds 0; where it was present a number is kept as it is, a text that
  reads as a number becomes that number, and a text that does not, or a missing value,
  becomes 0. Nothing makes a negative number positive: a count below zero in the source
  stays below zero.
\<close>

theorem load_catalog_counts:
  assumes "load_catalog requests read_csv parse_number = (Inr df, notices)"
    and "\<And>b d. read_csv b = Inr d \<Longrightarrow> rectangular d"
  shows "''consultas_90_dias'' \<in> set (columns df)
     \<and> list_all (\<lambda>r. \<exists>x. cell_of (columns df) (snd r) ''consultas_90_dias'' = Num x) (rows df)
     \<and> (\<exists>b d. read_csv b = Inr d
          \<and> map fst (rows df) = map fst (rows d)
          \<and> map (\<lambda>r. cell_of (columns df) (snd r) ''consultas_90_dias'') (rows df)
              = map (\<lambda>r. if ''consultas_90_dias'' \<in> set (columns d)
                          then coerced parse_number (cell_of (columns d) (snd r) ''consultas_90_dias'')
                          else Num 0) (rows d))"
proof -
  from load_catalog_Inr[OF assms(1)] obtain b d where rd: "read_csv b = Inr d"
    and df: "df = map_column ''consultas_90_dias'' (fillna 0 \<circ> to_numeric parse_number)
                (if ''consultas_90_dias'' \<notin> set (columns d)
                 then add_column ''consultas_90_dias'' (Num 0) d else d)"
    by blast
  note n = normalized_counts[OF assms(2)[OF rd], of parse_number, folded df]
  have "list_all (\<lambda>v. \<exists>x. v = Num x)
          (map (\<lambda>r. cell_of (columns df) (snd r) ''consultas_90_dias'') (rows df))"
    unfolding n(3) using coerced_Num by (auto simp: list_all_iff)
  then have "list_all (\<lambda>r. \<exists>x. cell_of (columns df) (snd r) ''consultas_90_dias'' = Num x) (rows df)"
    by (simp add: list_all_iff)
  then show ?thesis using n rd by blast
qed

theorem load_catalog_counts_witness:
  "load_catalog (Some (\<lambda>url timeout. Response 200 mixed_csv))
     (table_reader [(mixed_csv, mixed_table)]) (\<lambda>s. if s = ''12'' then Some 12 else None)
    = (Inr \<lparr>columns = [''serie_id'', ''consultas_90_dias''],
            rows = [(0, [Str ''A'', Num 12]), (1, [Str ''B'', Num 0]), (2, [Str ''C'', Num 0])]\<rparr>, [])
   \<and> list_all (\<lambda>r. \<exists>x. cell_of [''serie_id'', ''consultas_90_dias''] (snd r) ''consultas_90_dias'' = Num x)
        [(0, [Str ''A'', Num 12]), (1, [Str ''B'', Num 0]), (2, [Str ''C'', Num 0])]"
proof -
  let ?rd = "table_reader [(mixed_csv, mixed_table)]"
  let ?pn = "\<lambda>s. if s = ''12'' then Some (12::real) else None"
  let ?df = "\<lparr>columns = [''serie_id'', ''consultas_90_dias''],
            rows = [(0, [Str ''A'', Num 12]), (1, [Str ''B'', Num 0]), (2, [Str ''C'', Num 0])]\<rparr>"
  have 1: "load_catalog (Some (\<lambda>url timeout. Response 200 mixed_csv)) ?rd ?pn = (Inr ?df, [])"
    by (simp add: load_catalog_def requests_get_def table_reader_def mixed_table_def
        map_column_def fillna_def to_numeric_def)
  have 2: "rectangular d" if "?rd b = Inr d" for b d
    using that by (rule table_reader_rectangular[rotated]) (simp add: rectangular_def mixed_table_def)
  from load_catalog_counts[OF 1 2] show ?thesis using 1 by simp
qed

text \<open>
  The claim as stated also excludes negative values. A reply of the catalogue address whose
  count is -5 is returned with that count.
\<close>

theorem load_catalog_negative_count:
  "(case fst (load_catalog (Some (\<lambda>url timeout. Response 200 negative_csv))
               (table_reader [(negative_csv, negative_table)]) (\<lambda>s. None)) of
      Inl e \<Rightarrow> False
    | Inr df \<Rightarrow> \<not> counts_non_negative df)"
  by (simp add: negative_csv_read)
     (simp add: counts_non_negative_def negative_table_def cell_of_def)

text \<open>
  C7. Without the module \<^verbatim>\<open>requests\<close>, \<open>download_series\<close> raises the run-time error
  with its own message before any request is made, and with the module present that error
  never arises; \<open>load_catalog\<close> does not fail but returns the table of the embedded text
  with a warning: one row under the six columns of the embedded header.
\<close>

theorem missing_requests:
  assumes "read_csv EMBEDDED_CSV = Inr embedded_table"
  shows "download_series None url = (Inl (RuntimeError MISSING_REQUESTS), [])
     \<and> (\<forall>get u. fst (download_series (Some get) u) \<noteq> Inl (RuntimeError MISSING_REQUESTS))
     \<and> load_catalog None read_csv parse_number = (Inr embedded_table, [CatalogWithoutRequests])
     \<and> length (rows embedded_table) = 1
     \<and> columns embedded_table =
          [''serie_id'', ''serie_titulo'', ''dataset_tema'', ''dataset_descripcion'',
           ''serie_descripcion'', ''consultas_90_dias'']"
proof -
  have "download_series None url = (Inl (RuntimeError MISSING_REQUESTS), [])"
    by (simp add: download_series_def)
  moreover have "fst (download_series (Some get) u) \<noteq> Inl (RuntimeError MISSING_REQUESTS)" for get u
    by (simp add: download_series_def requests_get_def split: http_reply.splits)
  moreover have "map_column ''consultas_90_dias'' (fillna 0 \<circ> to_numeric parse_number) embedded_table
                  = embedded_table"
    by (simp add: map_column_def embedded_table_def fillna_def to_numeric_def)
  then have "load_catalog None read_csv parse_number = (Inr embedded_table, [CatalogWithoutRequests])"
    using assms by (simp add: load_catalog_def) (simp add: embedded_table_def)
  ultimately show ?thesis by (simp add: embedded_table_def)
qed

theorem missing_requests_witness:
  "download_series None (build_api_url ''TEST123'' None None) = (Inl (RuntimeError MISSING_REQUESTS), [])
   \<and> load_catalog None (table_reader [(EMBEDDED_CSV, embedded_table)]) (\<lambda>s. None)
       = (Inr embedded_table, [CatalogWithoutRequests])"
proof -
  have h: "table_reader [(EMBEDDED_CSV, embedded_table)] EMBEDDED_CSV = Inr embedded_table"
    by (simp add: table_reader_def)
  from missing_requests[of "table_reader [(EMBEDDED_CSV, embedded_table)]"
      "build_api_url ''TEST123'' None None" "\<lambda>s. None", OF h]
  show ?thesis by blast
qed

section \<open>Claims on the pipeline\<close>

text \<open>
  C4, as amended. An empty search text removes no row. For a search text that is not empty
  and has none of the special characters of regular expressions: when the title column of
  the catalogue is a column of texts, the step keeps exactly the rows whose title is a text
  containing the search text, case ignored, so that a row whose title is missing never
  matches; when the catalogue has rows and none of its titles is a text, the step raises
  the attribute error of the accessor instead of returning a table.
\<close>

theorem text_filter_literal:
  assumes "\<forall>c\<in>set query. \<not> re_special c" and "''serie_titulo'' \<in> set (columns filtered)"
  shows "text_filter [] meta filtered = Some (Inr filtered)
     \<and> (query \<noteq> [] \<and> text_dtype ''serie_titulo'' meta \<longrightarrow>
          text_filter query meta filtered =
            Some (Inr (filtered\<lparr>rows :=
              filter (title_contains query (columns filtered)) (rows filtered)\<rparr>)))
     \<and> (query \<noteq> [] \<and> \<not> text_dtype ''serie_titulo'' meta \<longrightarrow>
          text_filter query meta filtered =
            Some (Inl (AttributeError ''Can only use .str accessor with string values!'')))"
proof -
  have "(\<lambda>(i, vals). str_contains (map Lit query) (cell_of (columns filtered) vals ''serie_titulo''))
        = title_contains query (columns filtered)"
    using str_contains_literal[of query "columns filtered"] by (auto simp: fun_eq_iff)
  then show ?thesis
    using assms by (simp add: text_filter_def re_compile_literal)
qed

theorem text_filter_literal_witness:
  "text_filter ''General'' three_titles three_titles =
     Some (Inr \<lparr>columns = [''serie_id'', ''serie_titulo'', ''dataset_tema'', ''consultas_90_dias''],
                rows = [(0, [Str ''S1'', Str ''IPC Nivel General'', Str ''Precios'', Num 40]),
                        (3, [Str ''S4'', Str ''EMAE general'', Str ''Actividad'', Num 0])]\<rparr>)
   \<and> text_filter ''General'' no_titles no_titles =
     Some (Inl (AttributeError ''Can only use .str accessor with string values!''))"
proof -
  have 1: "\<forall>c\<in>set ''General''. \<not> re_special c" by (simp add: re_special_def)
  have 2: "''serie_titulo'' \<in> set (columns three_titles)" by (simp add: three_titles_def)
  have 3: "filter (title_contains ''General'' (columns three_titles)) (rows three_titles)
           = [(0, [Str ''S1'', Str ''IPC Nivel General'', Str ''Precios'', Num 40]),
              (3, [Str ''S4'', Str ''EMAE general'', Str ''Actividad'', Num 0])]"
    by (simp add: three_titles_def title_contains_def cell_of_def, code_simp)
  have 4: "text_dtype ''serie_titulo'' three_titles"
    by (simp add: text_dtype_def three_titles_def cell_of_def)
  have 5: "''serie_titulo'' \<in> set (columns no_titles)" by (simp add: no_titles_def)
  have 6: "\<not> text_dtype ''serie_titulo'' no_titles"
    by (simp add: text_dtype_def no_titles_def cell_of_def)
  from text_filter_literal[OF 1 2, of three_titles] 4
  have a: "text_filter ''General'' three_titles three_titles =
     Some (Inr \<lparr>columns = [''serie_id'', ''serie_titulo'', ''dataset_tema'', ''consultas_90_dias''],
                rows = [(0, [Str ''S1'', Str ''IPC Nivel General'', Str ''Precios'', Num 40]),
                        (3, [Str ''S4'', Str ''EMAE general'', Str ''Actividad'', Num 0])]\<rparr>)"
    by (simp add: 3) (simp add: three_titles_def)
  from text_filter_literal[OF 1 5, of no_titles] 6
  have b: "text_filter ''General'' no_titles no_titles =
     Some (Inl (AttributeError ''Can only use .str accessor with string values!''))"
    by simp
  show ?thesis using a b by (rule conjI)
qed

text \<open>
  The claim as stated takes every search text literally. On a catalogue with the one title
  \<^verbatim>\<open>abc\<close> the search text \<^verbatim>\<open>.\<close> keeps the row, though the title contains no full stop:
  the text is read as a regular expression.
\<close>

theorem text_filter_wildcard:
  "text_filter ''.'' one_title one_title = Some (Inr one_title)
   \<and> filter (title_contains ''.'' (columns one_title)) (rows one_title) = []"
proof
  show "text_filter ''.'' one_title one_title = Some (Inr one_title)"
    by (simp add: text_filter_def one_title_def str_contains_def cell_of_def text_dtype_def)
  show "filter (title_contains ''.'' (columns one_title)) (rows one_title) = []"
    by (simp add: one_title_def cell_of_def title_contains_def lower_def sublist_Cons_right
        lower_char_def code_point_def)
qed

text \<open>
  C3. On a rectangular table, for a preferred list without repetition such as the one of
  the source, reordering succeeds. The new column list is the preferred labels that are
  columns, in the order of the preferred list, followed by the other columns in their
  original order; it is a permutation of the old list without repetition, and every row,
  read under the old labels, holds what it held. With the preferred labels A, C and the
  columns B, C, A, D the result has the columns A, C, B, D.
\<close>

theorem reorder_columns_permutes:
  assumes "rectangular df" and "distinct preferred"
  shows "(\<exists>df'. reorder_columns preferred df = Inr df'
       \<and> columns df' = filter (\<lambda>c. c \<in> set (columns df)) preferred
                          @ filter (\<lambda>c. c \<notin> set preferred) (columns df)
       \<and> mset (columns df') = mset (columns df)
       \<and> distinct (columns df')
       \<and> map (\<lambda>r. (fst r, map (cell_of (columns df') (snd r)) (columns df))) (rows df') = rows df
       \<and> rectangular df')
     \<and> distinct preferred_order
     \<and> reorder_columns [''A'', ''C''] \<lparr>columns = [''B'', ''C'', ''A'', ''D''], rows = [(i, [b, c, a, d])]\<rparr>
         = Inr \<lparr>columns = [''A'', ''C'', ''B'', ''D''], rows = [(i, [a, c, b, d])]\<rparr>"
  using reorder_columns_shape[OF assms] preferred_order_distinct reorder_example[of i b c a d]
  by blast

theorem reorder_columns_permutes_witness:
  "reorder_columns preferred_order embedded_table
     = Inr \<lparr>columns = [''consultas_90_dias'', ''dataset_descripcion'', ''dataset_tema'',
                        ''serie_id'', ''serie_titulo'', ''serie_descripcion''],
            rows = [(0, [Num 999, Str ''Dataset de prueba'', Str ''Actividad'', Str ''TEST123'',
                         Str ''Serie de ejemplo'', Str ''Desc corta''])]\<rparr>
   \<and> mset [''consultas_90_dias'', ''dataset_descripcion'', ''dataset_tema'',
            ''serie_id'', ''serie_titulo'', ''serie_descripcion''] = mset (columns embedded_table)"
proof -
  have r: "rectangular embedded_table"
    by (simp add: rectangular_def embedded_table_def)
  have d: "distinct preferred_order"
    by (simp add: preferred_order_def)
  from reorder_columns_permutes[OF r d] obtain df' where
    "reorder_columns preferred_order embedded_table = Inr df'"
    "mset (columns df') = mset (columns embedded_table)"
    by blast
  then show ?thesis by (auto simp: reorder_embedded)
qed





section \<open>Claims on saving\<close>

text \<open>
  C6. Two presses of the save button for the same title, with any identifiers, dates,
  replies and starting files, where neither run of the script touches the script file
  itself. Over both presses the script file is written at most once. If the first press
  wrote it, it exists afterwards; and if it exists after the first press, the second press
  does not write it and leaves its content as it was. The downloaded file is written again
  by the second press whenever its download succeeds and its path can be written.
\<close>

theorem script_created_once:
  fixes env1 env2 :: environment
    and serie_titulo sid1 sd1 ed1 sid2 sd2 ed2 :: string
    and fs :: files
  defines "sp \<equiv> script_path (env_app_dir env1) (script_name serie_titulo)"
  defines "fp1 \<equiv> file_path (env_app_dir env1) (fname serie_titulo sd1 ed1)"
  defines "fp2 \<equiv> file_path (env_app_dir env2) (fname serie_titulo sd2 ed2)"
  defines "out1 \<equiv> save_on_server env1 sid1 serie_titulo sd1 ed1 fs"
  defines "out2 \<equiv> save_on_server env2 sid2 serie_titulo sd2 ed2 (out_files out1)"
  assumes "keeps_script env1 sp fp1" and "keeps_script env2 sp fp2"
    and "env_app_dir env2 = env_app_dir env1"
  shows "count_list (out_written out1 @ out_written out2) sp \<le> 1
     \<and> (sp \<in> set (out_written out1) \<longrightarrow> out_files out1 sp \<noteq> None)
     \<and> (out_files out1 sp \<noteq> None \<longrightarrow>
          sp \<notin> set (out_written out2) \<and> out_files out2 sp = out_files out1 sp)
     \<and> (\<forall>content.
          fst (download_series (env_requests env2)
                 (build_api_url sid2 (strip_or_None sd2) (strip_or_None ed2))) = Inr content
          \<and> env_writable env2 fp2 \<longrightarrow> fp2 \<in> set (out_written out2))"
proof -
  have sp2: "sp = script_path (env_app_dir env2) (script_name serie_titulo)"
    using assms(8) by (simp add: sp_def)
  have c1: "count_list (out_written out1) sp \<le> 1"
    unfolding out1_def sp_def by (rule save_on_server_written(1))
  have c2: "count_list (out_written out2) sp \<le> 1"
    unfolding out2_def sp2 by (rule save_on_server_written(1))
  have a: "out_files out1 sp \<noteq> None" if "sp \<in> set (out_written out1)"
    using that assms(6) unfolding out1_def sp_def fp1_def by (intro save_on_server_written(2))
  have b: "sp \<notin> set (out_written out2) \<and> out_files out2 sp = out_files out1 sp"
    if "out_files out1 sp \<noteq> None"
    using that assms(7) unfolding out2_def sp2 fp2_def
    by (simp add: save_on_server_script_exists)
  have "count_list (out_written out1 @ out_written out2) sp \<le> 1"
  proof (cases "sp \<in> set (out_written out1)")
    case True
    then have "sp \<notin> set (out_written out2)" using a b by blast
    then show ?thesis using c1 by simp
  next
    case False
    then show ?thesis using c2 by simp
  qed
  moreover have "fp2 \<in> set (out_written out2)"
    if "fst (download_series (env_requests env2)
                 (build_api_url sid2 (strip_or_None sd2) (strip_or_None ed2))) = Inr content"
      "env_writable env2 fp2" for content
    using that unfolding out2_def fp2_def by (rule save_on_server_csv)
  ultimately show ?thesis using a b by blast
qed

theorem script_created_once_witness:
  "out_written (save_on_server (sample_env ''a,b'' 0) ''TEST123'' ''Serie de ejemplo'' [] [] Map.empty)
     = [''/app/descargas/serie-de-ejemplo.csv'', ''/app/scripts_series/serie-de-ejemplo.py'']
   \<and> out_written (save_on_server (sample_env ''c,d'' 0) ''TEST123'' ''Serie de ejemplo'' ''2020-01-01'' []
        (out_files (save_on_server (sample_env ''a,b'' 0) ''TEST123'' ''Serie de ejemplo'' [] [] Map.empty)))
     = [''/app/descargas/serie-de-ejemplo_2020-01-01.csv'']
   \<and> count_list
        (out_written (save_on_server (sample_env ''a,b'' 0) ''TEST123'' ''Serie de ejemplo'' [] [] Map.empty)
         @ out_written (save_on_server (sample_env ''c,d'' 0) ''TEST123'' ''Serie de ejemplo'' ''2020-01-01'' []
            (out_files (save_on_server (sample_env ''a,b'' 0) ''TEST123'' ''Serie de ejemplo'' [] [] Map.empty))))
        ''/app/scripts_series/serie-de-ejemplo.py'' \<le> 1"
proof -
  let ?e1 = "sample_env ''a,b'' 0" and ?e2 = "sample_env ''c,d'' 0"
  have sp: "script_path (env_app_dir ?e1) (script_name ''Serie de ejemplo'')
              = ''/app/scripts_series/serie-de-ejemplo.py''"
    by (simp add: sample_env_simps sample_paths)
  have k1: "keeps_script ?e1 (script_path (env_app_dir ?e1) (script_name ''Serie de ejemplo''))
              (file_path (env_app_dir ?e1) (fname ''Serie de ejemplo'' [] []))"
    unfolding sp by (rule sample_keeps)
  have k2: "keeps_script ?e2 (script_path (env_app_dir ?e1) (script_name ''Serie de ejemplo''))
              (file_path (env_app_dir ?e2) (fname ''Serie de ejemplo'' ''2020-01-01'' []))"
    unfolding sp by (rule sample_keeps)
  have a: "env_app_dir ?e2 = env_app_dir ?e1"
    by (simp add: sample_env_simps)
  note t = script_created_once[OF k1 k2 a, of "''TEST123''" Map.empty "''TEST123''", unfolded sp]
  have 1: "out_written (save_on_server ?e1 ''TEST123'' ''Serie de ejemplo'' [] [] Map.empty)
     = [''/app/descargas/serie-de-ejemplo.csv'', ''/app/scripts_series/serie-de-ejemplo.py'']"
    by (rule sample_first_run)
  have 2: "out_written (save_on_server ?e2 ''TEST123'' ''Serie de ejemplo'' ''2020-01-01'' []
        (out_files (save_on_server ?e1 ''TEST123'' ''Serie de ejemplo'' [] [] Map.empty)))
     = [''/app/descargas/serie-de-ejemplo_2020-01-01.csv'']"
    by (rule sample_second_run) (rule sample_first_run)
  show ?thesis using 1 2 conjunct1[OF t] by blast
qed

text \<open>
  C8. The download succeeded, the file could be written, the script exists or could be
  written, and the script ran and exited with a code other than 0 without touching the
  downloaded file. Then the notes are the success note of the save, the note of the new
  script if it was created, and the note that reports the standard error of the run; the
  note of the exception handler is not among them. The downloaded file holds the content
  received and is among the paths written.
\<close>

theorem script_failure_reported:
  fixes env :: environment
    and serie_id serie_titulo start_date end_date :: string
    and fs :: files
  defines "sp \<equiv> script_path (env_app_dir env) (script_name serie_titulo)"
  defines "fp \<equiv> file_path (env_app_dir env) (fname serie_titulo start_date end_date)"
  defines "out \<equiv> save_on_server env serie_id serie_titulo start_date end_date fs"
  assumes "fst (download_series (env_requests env)
                  (build_api_url serie_id (strip_or_None start_date) (strip_or_None end_date)))
           = Inr content"
    and "env_writable env fp" and "fs sp \<noteq> None \<or> env_writable env sp"
    and "\<forall>fs'. fst (env_run env sp fp fs') = Inr result" and "returncode result \<noteq> 0"
    and "keeps_download env sp fp"
  shows "out_notices out =
           SavedOnServer (fname serie_titulo start_date end_date)
             # (if fs sp = None then [ScriptCreated (script_name serie_titulo)] else [])
             @ [ScriptFailed (stderr result)]
     \<and> out_files out fp = Some content
     \<and> fp \<in> set (out_written out)"
proof -
  have ne: "fp \<noteq> sp" unfolding fp_def sp_def by (rule paths_differ)
  let ?fs1 = "fs(fp \<mapsto> content)"
  obtain fs2 where es: "ensure_script env serie_titulo ?fs1
       = Inr (fs2, if fs sp = None then [ScriptCreated (script_name serie_titulo)] else [],
              if fs sp = None then [sp] else [])"
    and fs2: "fs2 fp = Some content"
    using assms(6) ne
    by (cases "fs sp = None")
       (auto simp: ensure_script_def Let_def open_write_def sp_def[symmetric])
  have run: "fst (env_run env sp fp fs2) = Inr result" using assms(7) by blast
  have keep: "snd (env_run env sp fp fs2) fp = Some content"
    using assms(9) fs2 by (simp add: keeps_download_def)
  show ?thesis
    unfolding out_def save_on_server_unfold Let_def sp_def[symmetric] fp_def[symmetric]
    using assms(4,5,8) es run keep by simp
qed

theorem script_failure_reported_witness:
  "out_notices (save_on_server (sample_env ''a,b'' 1) ''TEST123'' ''Serie de ejemplo'' [] [] Map.empty)
     = [SavedOnServer ''serie-de-ejemplo.csv'', ScriptCreated ''serie-de-ejemplo.py'',
        ScriptFailed ''Traceback'']
   \<and> out_files (save_on_server (sample_env ''a,b'' 1) ''TEST123'' ''Serie de ejemplo'' [] [] Map.empty)
        ''/app/descargas/serie-de-ejemplo.csv'' = Some ''a,b''"
proof -
  let ?e = "sample_env ''a,b'' 1"
  let ?r = "\<lparr>returncode = 1, stderr = ''Traceback''\<rparr>"
  have sp: "script_path (env_app_dir ?e) (script_name ''Serie de ejemplo'')
              = ''/app/scripts_series/serie-de-ejemplo.py''"
    and fp: "file_path (env_app_dir ?e) (fname ''Serie de ejemplo'' [] [])
              = ''/app/descargas/serie-de-ejemplo.csv''"
    by (simp_all add: sample_env_simps sample_paths)
  have d: "fst (download_series (env_requests ?e)
                  (build_api_url ''TEST123'' (strip_or_None []) (strip_or_None []))) = Inr ''a,b''"
    by (simp add: sample_env_simps sample_download)
  have w: "env_writable ?e (file_path (env_app_dir ?e) (fname ''Serie de ejemplo'' [] []))"
    by (simp add: sample_env_simps)
  have s: "Map.empty (script_path (env_app_dir ?e) (script_name ''Serie de ejemplo'')) \<noteq> None
           \<or> env_writable ?e (script_path (env_app_dir ?e) (script_name ''Serie de ejemplo''))"
    by (simp add: sample_env_simps)
  have r: "\<forall>fs'. fst (env_run ?e (script_path (env_app_dir ?e) (script_name ''Serie de ejemplo''))
                        (file_path (env_app_dir ?e) (fname ''Serie de ejemplo'' [] [])) fs') = Inr ?r"
    by (simp add: sample_env_simps)
  have c: "returncode ?r \<noteq> 0" by simp
  have k: "keeps_download ?e (script_path (env_app_dir ?e) (script_name ''Serie de ejemplo''))
             (file_path (env_app_dir ?e) (fname ''Serie de ejemplo'' [] []))"
    unfolding fp by (rule sample_keeps)
  from script_failure_reported[OF d w s r c k] show ?thesis
    by (simp add: sample_env_simps sample_paths)
qed

end
